theory Spec2Isabelle
  imports Main "HOL-Library.Sublist"
begin

section \<open>JavaScript values\<close>

text \<open>
  A JavaScript string is represented by the bytes of its UTF-8 encoding, so the ASCII
  parts of a message are ordinary literals and the Chinese parts are byte lists. The
  program only concatenates strings, tests them for emptiness and searches them for
  ASCII substrings; all three agree on the UTF-16 code units JavaScript counts and
  on the UTF-8 bytes used here. A property that may be \<^verbatim>\<open>undefined\<close> is an
  \<open>option\<close>.
\<close>

text \<open>\<^verbatim>\<open>s.includes(needle)\<close>\<close>

definition js_includes :: "string \<Rightarrow> string \<Rightarrow> bool" where
  "js_includes s needle = sublist needle s"

text \<open>\<^verbatim>\<open>m?.includes(needle)\<close>: \<^verbatim>\<open>undefined\<close>, hence falsy, when \<open>m\<close> is.\<close>

definition opt_includes :: "string option \<Rightarrow> string \<Rightarrow> bool" where
  "opt_includes m needle = (case m of None \<Rightarrow> False | Some s \<Rightarrow> js_includes s needle)"

text \<open>\<^verbatim>\<open>a || b\<close> on strings that may be undefined: the empty string is falsy.\<close>

definition js_or :: "string option \<Rightarrow> string option \<Rightarrow> string option" where
  "js_or a b = (case a of None \<Rightarrow> b | Some s \<Rightarrow> if s = [] then b else Some s)"

text \<open>\<^verbatim>\<open>!x\<close> on a string that may be undefined.\<close>

definition falsy :: "string option \<Rightarrow> bool" where
  "falsy x = (case x of None \<Rightarrow> True | Some s \<Rightarrow> s = [])"

text \<open>A value interpolated into a template literal.\<close>

definition interpolate :: "string option \<Rightarrow> string" where
  "interpolate x = (case x of None \<Rightarrow> ''undefined'' | Some s \<Rightarrow> s)"

text \<open>
  A thrown value is observed only through its \<^verbatim>\<open>message\<close> property, which an
  \<^verbatim>\<open>Error\<close> has and the \<^verbatim>\<open>ProgressEvent\<close> of a failed file read has not.
\<close>

datatype thrown = Thrown (message: "string option")

definition Error_new :: "string \<Rightarrow> thrown" where
  "Error_new m = Thrown (Some m)"

text \<open>
  A promise, as seen by the code that awaits it or races it: already settled when the
  caller gets it, settled some milliseconds after the call, or never settled.
\<close>

datatype 'a promise = Immediately 'a | After nat 'a | Never

section \<open>The messages of the program\<close>

text \<open>
  The fixed texts of \<^verbatim>\<open>services/gemini.ts\<close> and \<^verbatim>\<open>App.tsx\<close>, each with
  its place in the source and, for the Chinese texts, its meaning.
\<close>

text \<open>gemini.ts, line 14.\<close>

definition msg_no_api_key :: string where
  "msg_no_api_key =
     ''API Key not found. Please ensure GEMINI_API_KEY is set or select a key.''"

text \<open>gemini.ts, line 87: Gemini returned no candidate result; this may be due to safety
  filtering or a refused request.\<close>

definition msg_no_candidate :: string where
  "msg_no_candidate =
     ''Gemini '' @
     [CHR 0xE6, CHR 0x9C, CHR 0xAA, CHR 0xE8, CHR 0xBF, CHR 0x94, CHR 0xE5, CHR 0x9B, CHR 0x9E,
      CHR 0xE4, CHR 0xBB, CHR 0xBB, CHR 0xE4, CHR 0xBD, CHR 0x95, CHR 0xE5, CHR 0x80, CHR 0x99,
      CHR 0xE9, CHR 0x80, CHR 0x89, CHR 0xE7, CHR 0xBB, CHR 0x93, CHR 0xE6, CHR 0x9E, CHR 0x9C,
      CHR 0xE3, CHR 0x80, CHR 0x82, CHR 0xE5, CHR 0x8F, CHR 0xAF, CHR 0xE8, CHR 0x83, CHR 0xBD,
      CHR 0xE6, CHR 0x98, CHR 0xAF, CHR 0xE7, CHR 0x94, CHR 0xB1, CHR 0xE4, CHR 0xBA, CHR 0x8E,
      CHR 0xE5, CHR 0xAE, CHR 0x89, CHR 0xE5, CHR 0x85, CHR 0xA8, CHR 0xE8, CHR 0xBF, CHR 0x87,
      CHR 0xE6, CHR 0xBB, CHR 0xA4, CHR 0xE6, CHR 0x88, CHR 0x96, CHR 0xE8, CHR 0xAF, CHR 0xB7,
      CHR 0xE6, CHR 0xB1, CHR 0x82, CHR 0xE8, CHR 0xA2, CHR 0xAB, CHR 0xE6, CHR 0x8B, CHR 0x92,
      CHR 0xE7, CHR 0xBB, CHR 0x9D, CHR 0xE3, CHR 0x80, CHR 0x82]"

text \<open>gemini.ts, line 91, before the finish reason: generation has stopped, reason:\<close>

definition msg_stopped_prefix :: string where
  "msg_stopped_prefix =
     [CHR 0xE7, CHR 0x94, CHR 0x9F, CHR 0xE6, CHR 0x88, CHR 0x90, CHR 0xE5, CHR 0xB7, CHR 0xB2,
      CHR 0xE5, CHR 0x81, CHR 0x9C, CHR 0xE6, CHR 0xAD, CHR 0xA2, CHR 0xEF, CHR 0xBC, CHR 0x8C,
      CHR 0xE5, CHR 0x8E, CHR 0x9F, CHR 0xE5, CHR 0x9B, CHR 0xA0] @
     '': ''"

text \<open>gemini.ts, line 91, after the finish reason: please try uploading another photo.\<close>

definition msg_stopped_suffix :: string where
  "msg_stopped_suffix =
     [CHR 0xE3, CHR 0x80, CHR 0x82, CHR 0xE8, CHR 0xAF, CHR 0xB7, CHR 0xE5, CHR 0xB0, CHR 0x9D,
      CHR 0xE8, CHR 0xAF, CHR 0x95, CHR 0xE4, CHR 0xB8, CHR 0x8A, CHR 0xE4, CHR 0xBC, CHR 0xA0,
      CHR 0xE5, CHR 0x85, CHR 0xB6, CHR 0xE4, CHR 0xBB, CHR 0x96, CHR 0xE7, CHR 0x85, CHR 0xA7,
      CHR 0xE7, CHR 0x89, CHR 0x87, CHR 0xE3, CHR 0x80, CHR 0x82]"

text \<open>gemini.ts, line 96: the response returned by Gemini has no content parts.\<close>

definition msg_no_parts :: string where
  "msg_no_parts =
     ''Gemini '' @
     [CHR 0xE8, CHR 0xBF, CHR 0x94, CHR 0xE5, CHR 0x9B, CHR 0x9E, CHR 0xE7, CHR 0x9A, CHR 0x84,
      CHR 0xE5, CHR 0x93, CHR 0x8D, CHR 0xE5, CHR 0xBA, CHR 0x94, CHR 0xE4, CHR 0xB8, CHR 0xAD,
      CHR 0xE6, CHR 0xB2, CHR 0xA1, CHR 0xE6, CHR 0x9C, CHR 0x89, CHR 0xE5, CHR 0x86, CHR 0x85,
      CHR 0xE5, CHR 0xAE, CHR 0xB9, CHR 0xE9, CHR 0x83, CHR 0xA8, CHR 0xE5, CHR 0x88, CHR 0x86] @
     '' (parts)'' @
     [CHR 0xE3, CHR 0x80, CHR 0x82]"

text \<open>gemini.ts, line 110, before the text: the model returned no image but a text note:\<close>

definition msg_text_prefix :: string where
  "msg_text_prefix =
     [CHR 0xE6, CHR 0xA8, CHR 0xA1, CHR 0xE5, CHR 0x9E, CHR 0x8B, CHR 0xE6, CHR 0x9C, CHR 0xAA,
      CHR 0xE8, CHR 0xBF, CHR 0x94, CHR 0xE5, CHR 0x9B, CHR 0x9E, CHR 0xE5, CHR 0x9B, CHR 0xBE,
      CHR 0xE5, CHR 0x83, CHR 0x8F, CHR 0xEF, CHR 0xBC, CHR 0x8C, CHR 0xE8, CHR 0x80, CHR 0x8C,
      CHR 0xE6, CHR 0x98, CHR 0xAF, CHR 0xE8, CHR 0xBF, CHR 0x94, CHR 0xE5, CHR 0x9B, CHR 0x9E,
      CHR 0xE4, CHR 0xBA, CHR 0x86, CHR 0xE6, CHR 0x96, CHR 0x87, CHR 0xE5, CHR 0xAD, CHR 0x97,
      CHR 0xE8, CHR 0xAF, CHR 0xB4, CHR 0xE6, CHR 0x98, CHR 0x8E] @
     '': ''"

text \<open>gemini.ts, line 113: Gemini returned no valid image data.\<close>

definition msg_no_image :: string where
  "msg_no_image =
     ''Gemini '' @
     [CHR 0xE6, CHR 0x9C, CHR 0xAA, CHR 0xE8, CHR 0xBF, CHR 0x94, CHR 0xE5, CHR 0x9B, CHR 0x9E,
      CHR 0xE6, CHR 0x9C, CHR 0x89, CHR 0xE6, CHR 0x95, CHR 0x88, CHR 0xE7, CHR 0x9A, CHR 0x84,
      CHR 0xE5, CHR 0x9B, CHR 0xBE, CHR 0xE5, CHR 0x83, CHR 0x8F, CHR 0xE6, CHR 0x95, CHR 0xB0,
      CHR 0xE6, CHR 0x8D, CHR 0xAE, CHR 0xE3, CHR 0x80, CHR 0x82]"

text \<open>gemini.ts, line 119: network connection failed, please check your network settings or
  whether the API key is valid.\<close>

definition msg_network :: string where
  "msg_network =
     [CHR 0xE7, CHR 0xBD, CHR 0x91, CHR 0xE7, CHR 0xBB, CHR 0x9C, CHR 0xE8, CHR 0xBF, CHR 0x9E,
      CHR 0xE6, CHR 0x8E, CHR 0xA5, CHR 0xE5, CHR 0xA4, CHR 0xB1, CHR 0xE8, CHR 0xB4, CHR 0xA5,
      CHR 0xEF, CHR 0xBC, CHR 0x8C, CHR 0xE8, CHR 0xAF, CHR 0xB7, CHR 0xE6, CHR 0xA3, CHR 0x80,
      CHR 0xE6, CHR 0x9F, CHR 0xA5, CHR 0xE6, CHR 0x82, CHR 0xA8, CHR 0xE7, CHR 0x9A, CHR 0x84,
      CHR 0xE7, CHR 0xBD, CHR 0x91, CHR 0xE7, CHR 0xBB, CHR 0x9C, CHR 0xE8, CHR 0xAE, CHR 0xBE,
      CHR 0xE7, CHR 0xBD, CHR 0xAE, CHR 0xE6, CHR 0x88, CHR 0x96] @
     '' API '' @
     [CHR 0xE5, CHR 0xAF, CHR 0x86, CHR 0xE9, CHR 0x92, CHR 0xA5, CHR 0xE6, CHR 0x98, CHR 0xAF,
      CHR 0xE5, CHR 0x90, CHR 0xA6, CHR 0xE6, CHR 0x9C, CHR 0x89, CHR 0xE6, CHR 0x95, CHR 0x88,
      CHR 0xE3, CHR 0x80, CHR 0x82]"

text \<open>gemini.ts, line 123: because of the safety policy this photo cannot be processed;
  please try uploading another photo.\<close>

definition msg_safety :: string where
  "msg_safety =
     [CHR 0xE7, CHR 0x94, CHR 0xB1, CHR 0xE4, CHR 0xBA, CHR 0x8E, CHR 0xE5, CHR 0xAE, CHR 0x89,
      CHR 0xE5, CHR 0x85, CHR 0xA8, CHR 0xE6, CHR 0x94, CHR 0xBF, CHR 0xE7, CHR 0xAD, CHR 0x96,
      CHR 0xEF, CHR 0xBC, CHR 0x8C, CHR 0xE8, CHR 0xAF, CHR 0xA5, CHR 0xE7, CHR 0x85, CHR 0xA7,
      CHR 0xE7, CHR 0x89, CHR 0x87, CHR 0xE6, CHR 0x97, CHR 0xA0, CHR 0xE6, CHR 0xB3, CHR 0x95,
      CHR 0xE5, CHR 0xA4, CHR 0x84, CHR 0xE7, CHR 0x90, CHR 0x86, CHR 0xE3, CHR 0x80, CHR 0x82,
      CHR 0xE8, CHR 0xAF, CHR 0xB7, CHR 0xE5, CHR 0xB0, CHR 0x9D, CHR 0xE8, CHR 0xAF, CHR 0x95,
      CHR 0xE4, CHR 0xB8, CHR 0x8A, CHR 0xE4, CHR 0xBC, CHR 0xA0, CHR 0xE5, CHR 0x85, CHR 0xB6,
      CHR 0xE4, CHR 0xBB, CHR 0x96, CHR 0xE7, CHR 0x85, CHR 0xA7, CHR 0xE7, CHR 0x89, CHR 0x87,
      CHR 0xE3, CHR 0x80, CHR 0x82]"

text \<open>App.tsx, line 111: request timed out, please retry.\<close>

definition msg_timeout :: string where
  "msg_timeout =
     [CHR 0xE8, CHR 0xAF, CHR 0xB7, CHR 0xE6, CHR 0xB1, CHR 0x82, CHR 0xE8, CHR 0xB6, CHR 0x85,
      CHR 0xE6, CHR 0x97, CHR 0xB6, CHR 0xEF, CHR 0xBC, CHR 0x8C, CHR 0xE8, CHR 0xAF, CHR 0xB7,
      CHR 0xE9, CHR 0x87, CHR 0x8D, CHR 0xE8, CHR 0xAF, CHR 0x95]"

text \<open>App.tsx, line 124: restoration failed, please retry.\<close>

definition msg_default :: string where
  "msg_default =
     [CHR 0xE4, CHR 0xBF, CHR 0xAE, CHR 0xE5, CHR 0xA4, CHR 0x8D, CHR 0xE5, CHR 0xA4, CHR 0xB1,
      CHR 0xE8, CHR 0xB4, CHR 0xA5, CHR 0xEF, CHR 0xBC, CHR 0x8C, CHR 0xE8, CHR 0xAF, CHR 0xB7,
      CHR 0xE9, CHR 0x87, CHR 0x8D, CHR 0xE8, CHR 0xAF, CHR 0x95]"

text \<open>App.tsx, line 128: the API key is no longer valid, please select one again.\<close>

definition msg_key_invalid :: string where
  "msg_key_invalid =
     ''API '' @
     [CHR 0xE5, CHR 0xAF, CHR 0x86, CHR 0xE9, CHR 0x92, CHR 0xA5, CHR 0xE5, CHR 0xA4, CHR 0xB1,
      CHR 0xE6, CHR 0x95, CHR 0x88, CHR 0xEF, CHR 0xBC, CHR 0x8C, CHR 0xE8, CHR 0xAF, CHR 0xB7,
      CHR 0xE9, CHR 0x87, CHR 0x8D, CHR 0xE6, CHR 0x96, CHR 0xB0, CHR 0xE9, CHR 0x80, CHR 0x89,
      CHR 0xE6, CHR 0x8B, CHR 0xA9]"

text \<open>App.tsx, line 130: the API quota is exhausted; please try again later, or check your
  quota limits in Google AI Studio.\<close>

definition msg_quota :: string where
  "msg_quota =
     ''API '' @
     [CHR 0xE9, CHR 0x85, CHR 0x8D, CHR 0xE9, CHR 0xA2, CHR 0x9D, CHR 0xE5, CHR 0xB7, CHR 0xB2,
      CHR 0xE8, CHR 0x80, CHR 0x97, CHR 0xE5, CHR 0xB0, CHR 0xBD, CHR 0xE3, CHR 0x80, CHR 0x82,
      CHR 0xE8, CHR 0xAF, CHR 0xB7, CHR 0xE7, CHR 0xA8, CHR 0x8D, CHR 0xE5, CHR 0x90, CHR 0x8E,
      CHR 0xE5, CHR 0x86, CHR 0x8D, CHR 0xE8, CHR 0xAF, CHR 0x95, CHR 0xEF, CHR 0xBC, CHR 0x8C,
      CHR 0xE6, CHR 0x88, CHR 0x96, CHR 0xE5, CHR 0x9C, CHR 0xA8] @
     '' Google AI Studio '' @
     [CHR 0xE4, CHR 0xB8, CHR 0xAD, CHR 0xE6, CHR 0xA3, CHR 0x80, CHR 0xE6, CHR 0x9F, CHR 0xA5,
      CHR 0xE6, CHR 0x82, CHR 0xA8, CHR 0xE7, CHR 0x9A, CHR 0x84, CHR 0xE9, CHR 0x85, CHR 0x8D,
      CHR 0xE9, CHR 0xA2, CHR 0x9D, CHR 0xE9, CHR 0x99, CHR 0x90, CHR 0xE5, CHR 0x88, CHR 0xB6,
      CHR 0xE3, CHR 0x80, CHR 0x82]"

text \<open>App.tsx, line 132: network connection failed, please check your network settings.\<close>

definition msg_connectivity :: string where
  "msg_connectivity =
     [CHR 0xE7, CHR 0xBD, CHR 0x91, CHR 0xE7, CHR 0xBB, CHR 0x9C, CHR 0xE8, CHR 0xBF, CHR 0x9E,
      CHR 0xE6, CHR 0x8E, CHR 0xA5, CHR 0xE5, CHR 0xA4, CHR 0xB1, CHR 0xE8, CHR 0xB4, CHR 0xA5,
      CHR 0xEF, CHR 0xBC, CHR 0x8C, CHR 0xE8, CHR 0xAF, CHR 0xB7, CHR 0xE6, CHR 0xA3, CHR 0x80,
      CHR 0xE6, CHR 0x9F, CHR 0xA5, CHR 0xE6, CHR 0x82, CHR 0xA8, CHR 0xE7, CHR 0x9A, CHR 0x84,
      CHR 0xE7, CHR 0xBD, CHR 0x91, CHR 0xE7, CHR 0xBB, CHR 0x9C, CHR 0xE8, CHR 0xAE, CHR 0xBE,
      CHR 0xE7, CHR 0xBD, CHR 0xAE, CHR 0xE3, CHR 0x80, CHR 0x82]"

section \<open>The restoration client (\<^verbatim>\<open>services/gemini.ts\<close>)\<close>

datatype RestorationMode = Standard | Ultra

text \<open>
  The response of \<^verbatim>\<open>generateContent\<close>, as far as \<^verbatim>\<open>restoreImage\<close> reads it:
  \<^verbatim>\<open>response.candidates?.[0]\<close>, \<^verbatim>\<open>candidate.finishReason\<close>,
  \<^verbatim>\<open>candidate.content?.parts\<close>, \<^verbatim>\<open>part.inlineData\<close>, \<^verbatim>\<open>part.text\<close>.
\<close>

record InlineData =
  mimeType :: "string option"
  data :: "string option"

record Part =
  inlineData :: "InlineData option"
  part_text :: "string option"

record Content =
  parts :: "Part list option"

record Candidate =
  finishReason :: "string option"
  content :: "Content option"

record Response =
  candidates :: "Candidate list option"

text \<open>
  The request: the model, the image and which of the two fixed instruction texts goes
  with it; \<open>imageSize\<close> is sent (with the aspect ratio 1:1) only when it is set. The
  safety settings are the same in every request.
\<close>

record Request =
  model :: string
  req_data :: string
  req_mimeType :: string
  instruction :: RestorationMode
  imageSize :: "string option"

record ProcessEnv =
  API_KEY :: "string option"
  GEMINI_API_KEY :: "string option"

text \<open>\<^verbatim>\<open>base64Image.split(',')[1]\<close>: the text between the first comma and the next.\<close>

definition split_comma_1 :: "string \<Rightarrow> string option" where
  "split_comma_1 s =
     (case dropWhile (\<lambda>c. c \<noteq> CHR '','') s of
        [] \<Rightarrow> None
      | _ # rest \<Rightarrow> Some (takeWhile (\<lambda>c. c \<noteq> CHR '','') rest))"

definition request :: "string \<Rightarrow> string \<Rightarrow> RestorationMode \<Rightarrow> Request" where
  "request base64Image mime mode =
     \<lparr> model = (if mode = Ultra then ''gemini-3-pro-image-preview''
                 else ''gemini-2.5-flash-image''),
       req_data = (case js_or (split_comma_1 base64Image) (Some base64Image) of
                     Some d \<Rightarrow> d | None \<Rightarrow> base64Image),
       req_mimeType = mime,
       instruction = mode,
       imageSize = (if mode = Ultra then Some ''2K'' else None) \<rparr>"

text \<open>\<^verbatim>\<open>response.candidates?.[0]\<close>\<close>

definition first_candidate :: "Response \<Rightarrow> Candidate option" where
  "first_candidate response =
     (case candidates response of
        None \<Rightarrow> None
      | Some [] \<Rightarrow> None
      | Some (c # _) \<Rightarrow> Some c)"

text \<open>\<^verbatim>\<open>candidate.content?.parts\<close>\<close>

definition content_parts :: "Candidate \<Rightarrow> Part list option" where
  "content_parts candidate =
     (case content candidate of None \<Rightarrow> None | Some c \<Rightarrow> parts c)"

text \<open>The loop over the parts: the first part with \<open>inlineData\<close> ends it.\<close>

fun first_image :: "Part list \<Rightarrow> string option" where
  "first_image [] = None"
| "first_image (part # rest) =
     (case inlineData part of
        Some d \<Rightarrow>
          Some (''data:'' @ interpolate (mimeType d) @ '';base64,'' @ interpolate (data d))
      | None \<Rightarrow> first_image rest)"

text \<open>\<^verbatim>\<open>parts.find(p => p.text)\<close>: the first part whose text is a non-empty string.\<close>

definition truthy_text :: "Part \<Rightarrow> bool" where
  "truthy_text p = (case part_text p of None \<Rightarrow> False | Some t \<Rightarrow> t \<noteq> [])"

text \<open>
  The body of the \<^verbatim>\<open>try\<close> after the response has arrived: the image as a data
  URL, or the error thrown.
\<close>

definition classifyResponse :: "Response \<Rightarrow> thrown + string" where
  "classifyResponse response =
     (case first_candidate response of
        None \<Rightarrow> Inl (Error_new msg_no_candidate)
      | Some candidate \<Rightarrow>
          if (case finishReason candidate of
                None \<Rightarrow> False | Some r \<Rightarrow> r \<noteq> [] \<and> r \<noteq> ''STOP'')
          then Inl (Error_new (msg_stopped_prefix @ interpolate (finishReason candidate)
                                 @ msg_stopped_suffix))
          else
            (case content_parts candidate of
               None \<Rightarrow> Inl (Error_new msg_no_parts)
             | Some ps \<Rightarrow>
                 if ps = [] then Inl (Error_new msg_no_parts)
                 else
                   (case first_image ps of
                      Some url \<Rightarrow> Inr url
                    | None \<Rightarrow>
                        (case find truthy_text ps of
                           Some textPart \<Rightarrow>
                             Inl (Error_new (msg_text_prefix @ interpolate (part_text textPart)))
                         | None \<Rightarrow> Inl (Error_new msg_no_image)))))"

text \<open>The \<^verbatim>\<open>catch\<close> block: what it throws for the error it caught.\<close>

definition catchBlock :: "thrown \<Rightarrow> thrown" where
  "catchBlock e =
     (if opt_includes (message e) ''fetch failed'' then Error_new msg_network
      else if opt_includes (message e) ''Safety'' then Error_new msg_safety
      else e)"

text \<open>
  The \<^verbatim>\<open>try\<close> statement as a whole, from the settled \<^verbatim>\<open>generateContent\<close>
  call on: an error of the call and an error thrown while the response is classified
  both pass through the \<^verbatim>\<open>catch\<close> block.
\<close>

definition tryCatch :: "thrown + Response \<Rightarrow> thrown + string" where
  "tryCatch settled =
     (case (case settled of Inl e \<Rightarrow> Inl e | Inr response \<Rightarrow> classifyResponse response) of
        Inl e \<Rightarrow> Inl (catchBlock e)
      | Inr url \<Rightarrow> Inr url)"

text \<open>
  \<^verbatim>\<open>restoreImage\<close>. Without a key it throws before its first \<^verbatim>\<open>await\<close>, so the
  promise it returns is already rejected; otherwise it settles when the remote call
  does, and never if that never does.
\<close>

definition restoreImage ::
  "ProcessEnv \<Rightarrow> (Request \<Rightarrow> (thrown + Response) promise) \<Rightarrow>
     string \<Rightarrow> string \<Rightarrow> RestorationMode \<Rightarrow> (thrown + string) promise" where
  "restoreImage env generateContent base64Image mime mode =
     (if falsy (js_or (API_KEY env) (GEMINI_API_KEY env))
      then Immediately (Inl (Error_new msg_no_api_key))
      else
        (case generateContent (request base64Image mime mode) of
           Never \<Rightarrow> Never
         | After ms settled \<Rightarrow> After ms (tryCatch settled)
         | Immediately settled \<Rightarrow> After 0 (tryCatch settled)))"

text \<open>The remote calls \<^verbatim>\<open>restoreImage\<close> issues: one, unless the key is missing.\<close>

definition restoreImage_calls ::
  "ProcessEnv \<Rightarrow> string \<Rightarrow> string \<Rightarrow> RestorationMode \<Rightarrow> Request list" where
  "restoreImage_calls env base64Image mime mode =
     (if falsy (js_or (API_KEY env) (GEMINI_API_KEY env)) then []
      else [request base64Image mime mode])"


section \<open>The application state (\<^verbatim>\<open>App.tsx\<close>)\<close>

datatype Status = Pending | Processing | Completed | Error

text \<open>
  The adjustment values are JavaScript numbers; the sliders pass the integer that
  \<^verbatim>\<open>parseInt\<close> reads from the control, and no arithmetic is done on them here.
\<close>

record Adjustments =
  brightness :: int
  contrast :: int
  saturation :: int
  sharpness :: int

datatype AdjustmentKey = Brightness | Contrast | Saturation | Sharpness

record File =
  file_name :: string
  file_type :: string

record PhotoItem =
  item_id :: string
  item_file :: File
  preview :: string
  status :: Status
  result :: "string option"
  error :: "string option"
  adjustments :: Adjustments

text \<open>
  What the program does to the outside world, in order: a call of \<^verbatim>\<open>processPhoto\<close>
  that passed its guard, a request sent to the remote model, the end of a call of
  \<^verbatim>\<open>processPhoto\<close> with the status it stored, a preview URL revoked.
\<close>

datatype event =
  Started string
| Requested Request
| Finished string Status
| Revoked string

text \<open>
  The five state variables of the component, and the trace of its effects (which is
  not a variable of the program).
\<close>

record App =
  photos :: "PhotoItem list"
  isProcessingAll :: bool
  editingPhotoId :: "string option"
  hasApiKey :: "bool option"
  restorationMode :: RestorationMode
  trace :: "event list"

definition emit :: "event list \<Rightarrow> App \<Rightarrow> App" where
  "emit es st = st\<lparr>trace := trace st @ es\<rparr>"

subsection \<open>Adding and removing photos\<close>

text \<open>
  A dropped file, with what the environment answers while its item is built:
  \<open>random36\<close> is \<^verbatim>\<open>Math.random().toString(36)\<close> and \<open>objectURL\<close> is
  \<^verbatim>\<open>URL.createObjectURL(file)\<close>.
\<close>

record Dropped =
  dropped_file :: File
  random36 :: string
  objectURL :: string

definition newPhoto :: "Dropped \<Rightarrow> PhotoItem" where
  "newPhoto d =
     \<lparr> item_id = drop 7 (random36 d),
       item_file = dropped_file d,
       preview = objectURL d,
       status = Pending,
       result = None,
       error = None,
       adjustments = \<lparr> brightness = 100, contrast = 100, saturation = 100, sharpness = 0 \<rparr> \<rparr>"

definition onDrop :: "Dropped list \<Rightarrow> App \<Rightarrow> App" where
  "onDrop acceptedFiles st = st\<lparr>photos := photos st @ map newPhoto acceptedFiles\<rparr>"

definition removePhoto :: "string \<Rightarrow> App \<Rightarrow> App" where
  "removePhoto i st =
     emit (case find (\<lambda>p. item_id p = i) (photos st) of
             None \<Rightarrow> []
           | Some photo \<Rightarrow> [Revoked (preview photo)])
       (st\<lparr>photos := filter (\<lambda>p. item_id p \<noteq> i) (photos st)\<rparr>)"

subsection \<open>Adjustments\<close>

text \<open>\<^verbatim>\<open>{ ...p.adjustments, [key]: value }\<close>\<close>

definition setAdjustment :: "AdjustmentKey \<Rightarrow> int \<Rightarrow> Adjustments \<Rightarrow> Adjustments" where
  "setAdjustment key v adj =
     (case key of
        Brightness \<Rightarrow> adj\<lparr>brightness := v\<rparr>
      | Contrast \<Rightarrow> adj\<lparr>contrast := v\<rparr>
      | Saturation \<Rightarrow> adj\<lparr>saturation := v\<rparr>
      | Sharpness \<Rightarrow> adj\<lparr>sharpness := v\<rparr>)"

definition getAdjustment :: "AdjustmentKey \<Rightarrow> Adjustments \<Rightarrow> int" where
  "getAdjustment key adj =
     (case key of
        Brightness \<Rightarrow> brightness adj
      | Contrast \<Rightarrow> contrast adj
      | Saturation \<Rightarrow> saturation adj
      | Sharpness \<Rightarrow> sharpness adj)"

definition updateAdjustment :: "string \<Rightarrow> AdjustmentKey \<Rightarrow> int \<Rightarrow> App \<Rightarrow> App" where
  "updateAdjustment i key v st =
     st\<lparr>photos :=
          map (\<lambda>p. if item_id p = i
                    then p\<lparr>adjustments := setAdjustment key v (adjustments p)\<rparr>
                    else p)
            (photos st)\<rparr>"

text \<open>
  The range each slider of the editing panel declares (\<^verbatim>\<open>min\<close>, \<^verbatim>\<open>max\<close> of the
  \<^verbatim>\<open>input\<close> element).
\<close>

definition slider_min :: "AdjustmentKey \<Rightarrow> int" where
  "slider_min key = (case key of Brightness \<Rightarrow> 50 | Contrast \<Rightarrow> 50 | Saturation \<Rightarrow> 0 | Sharpness \<Rightarrow> 0)"

definition slider_max :: "AdjustmentKey \<Rightarrow> int" where
  "slider_max key =
     (case key of Brightness \<Rightarrow> 150 | Contrast \<Rightarrow> 150 | Saturation \<Rightarrow> 200 | Sharpness \<Rightarrow> 100)"

subsection \<open>Processing one photo\<close>

text \<open>
  What the environment does during one call of \<^verbatim>\<open>processPhoto\<close>: how long
  \<^verbatim>\<open>fileToBase64\<close> takes and whether the reader ends with \<^verbatim>\<open>onload\<close> (the data
  URL) or \<^verbatim>\<open>onerror\<close>; the keys of the process environment; the remote model; and
  the files the user drops while the call is awaiting.
\<close>

record Attempt =
  read_ms :: nat
  read_result :: "string option"
  process_env :: ProcessEnv
  generateContent :: "Request \<Rightarrow> (thrown + Response) promise"
  arrivals :: "Dropped list"

definition timeout_ms :: nat where
  "timeout_ms = 90000"

text \<open>
  \<^verbatim>\<open>Promise.race([restorationPromise, timeoutPromise])\<close>, entered \<open>started\<close>
  milliseconds after the timer was set. A promise that is already settled when the
  race is entered wins it, being the first of the array; a promise that settles at the
  very millisecond the timer fires loses, the timer having been set first.
\<close>

definition race :: "nat \<Rightarrow> (thrown + string) promise \<Rightarrow> thrown + string" where
  "race started restorationPromise =
     (case restorationPromise of
        Immediately r \<Rightarrow> r
      | After ms r \<Rightarrow> if started + ms < timeout_ms then r else Inl (Error_new msg_timeout)
      | Never \<Rightarrow> Inl (Error_new msg_timeout))"

text \<open>
  The body of the \<^verbatim>\<open>try\<close>: the timer is set before it, then the file is read,
  then \<^verbatim>\<open>restoreImage\<close> is called and raced against the timer.
\<close>

definition tryBody :: "Attempt \<Rightarrow> RestorationMode \<Rightarrow> PhotoItem \<Rightarrow> thrown + string" where
  "tryBody a mode photo =
     (case read_result a of
        None \<Rightarrow> Inl (Thrown None)
      | Some base64 \<Rightarrow>
          race (read_ms a)
            (restoreImage (process_env a) (generateContent a) base64 (file_type (item_file photo)) mode))"

definition tryBody_calls :: "Attempt \<Rightarrow> RestorationMode \<Rightarrow> PhotoItem \<Rightarrow> Request list" where
  "tryBody_calls a mode photo =
     (case read_result a of
        None \<Rightarrow> []
      | Some base64 \<Rightarrow>
          restoreImage_calls (process_env a) base64 (file_type (item_file photo)) mode)"

text \<open>The three updates of the collection that \<^verbatim>\<open>processPhoto\<close> makes.\<close>

definition markProcessing :: "PhotoItem \<Rightarrow> App \<Rightarrow> App" where
  "markProcessing photo st =
     st\<lparr>photos :=
          map (\<lambda>p. if item_id p = item_id photo then p\<lparr>status := Processing\<rparr> else p)
            (photos st)\<rparr>"

definition markCompleted :: "PhotoItem \<Rightarrow> string \<Rightarrow> App \<Rightarrow> App" where
  "markCompleted photo r st =
     st\<lparr>photos :=
          map (\<lambda>p. if item_id p = item_id photo
                    then p\<lparr>status := Completed, result := Some r\<rparr> else p)
            (photos st)\<rparr>"

definition markError :: "PhotoItem \<Rightarrow> string \<Rightarrow> App \<Rightarrow> App" where
  "markError photo errorMessage st =
     st\<lparr>photos :=
          map (\<lambda>p. if item_id p = item_id photo
                    then p\<lparr>status := Error, error := Some errorMessage\<rparr> else p)
            (photos st)\<rparr>"

text \<open>The \<^verbatim>\<open>catch\<close> block of \<^verbatim>\<open>processPhoto\<close>.\<close>

definition isAuthFailure :: "thrown \<Rightarrow> bool" where
  "isAuthFailure err = opt_includes (message err) ''Requested entity was not found''"

definition isQuotaFailure :: "thrown \<Rightarrow> bool" where
  "isQuotaFailure err =
     (opt_includes (message err) ''quota'' \<or> opt_includes (message err) ''429''
      \<or> opt_includes (message err) ''RESOURCE_EXHAUSTED'')"

definition isFetchFailure :: "thrown \<Rightarrow> bool" where
  "isFetchFailure err = opt_includes (message err) ''fetch failed''"

definition errorMessageOf :: "thrown \<Rightarrow> string" where
  "errorMessageOf err =
     (if isAuthFailure err then msg_key_invalid
      else if isQuotaFailure err then msg_quota
      else if isFetchFailure err then msg_connectivity
      else (case js_or (message err) (Some msg_default) of
              Some m \<Rightarrow> m | None \<Rightarrow> msg_default))"

definition catchFailure :: "PhotoItem \<Rightarrow> thrown \<Rightarrow> App \<Rightarrow> App" where
  "catchFailure photo err st =
     markError photo (errorMessageOf err)
       (if isAuthFailure err then st\<lparr>hasApiKey := Some False\<rparr> else st)"

text \<open>
  \<^verbatim>\<open>processPhoto\<close>, in two halves: what it does before its first \<^verbatim>\<open>await\<close>
  once the guard has let it pass, and the rest. The files dropped during the call
  arrive while it awaits, between its first update of the collection and its last.
  The guard reads the status of the item it is given, and the restoration mode is
  the one of the state the call was made in.
\<close>

definition startPhoto :: "PhotoItem \<Rightarrow> App \<Rightarrow> App" where
  "startPhoto photo st = markProcessing photo (emit [Started (item_id photo)] st)"

definition settlePhoto :: "Attempt \<Rightarrow> PhotoItem \<Rightarrow> RestorationMode \<Rightarrow> App \<Rightarrow> App" where
  "settlePhoto a photo mode st1 =
     (let st2 = emit (map Requested (tryBody_calls a mode photo)) (onDrop (arrivals a) st1)
      in case tryBody a mode photo of
           Inr r \<Rightarrow>
             emit [Finished (item_id photo) Completed] (markCompleted photo r st2)
         | Inl err \<Rightarrow>
             emit [Finished (item_id photo) Error] (catchFailure photo err st2))"

definition processPhoto :: "Attempt \<Rightarrow> PhotoItem \<Rightarrow> App \<Rightarrow> App" where
  "processPhoto a photo st =
     (if status photo = Processing \<or> status photo = Completed then st
      else settlePhoto a photo (restorationMode st) (startPhoto photo st))"

text \<open>
  The effects of one call of \<^verbatim>\<open>processPhoto\<close> that passed its guard, as
  \<open>startPhoto\<close> and \<open>settlePhoto\<close> emit them: the start, the request if one is sent,
  and the end with the status stored.
\<close>

definition call_events :: "Attempt \<Rightarrow> RestorationMode \<Rightarrow> PhotoItem \<Rightarrow> event list" where
  "call_events a mode photo =
     Started (item_id photo) # map Requested (tryBody_calls a mode photo)
       @ [Finished (item_id photo)
            (case tryBody a mode photo of Inr r \<Rightarrow> Completed | Inl err \<Rightarrow> Error)]"

subsection \<open>Processing all photos\<close>

text \<open>The loop over the snapshot; \<open>attempts k\<close> is the environment of its \<open>k\<close>-th call.\<close>

fun processLoop :: "(nat \<Rightarrow> Attempt) \<Rightarrow> nat \<Rightarrow> PhotoItem list \<Rightarrow> App \<Rightarrow> App" where
  "processLoop attempts k [] st = st"
| "processLoop attempts k (photo # rest) st =
     processLoop attempts (Suc k) rest (processPhoto (attempts k) photo st)"

definition eligible :: "PhotoItem \<Rightarrow> bool" where
  "eligible p = (status p = Pending \<or> status p = Error)"

definition processAll :: "(nat \<Rightarrow> Attempt) \<Rightarrow> App \<Rightarrow> App" where
  "processAll attempts st =
     (let pendingPhotos = filter eligible (photos st)
      in (processLoop attempts 0 pendingPhotos (st\<lparr>isProcessingAll := True\<rparr>))
            \<lparr>isProcessingAll := False\<rparr>)"


section \<open>Example inputs\<close>

text \<open>Two files dropped into an empty collection; their draws give the ids below.\<close>

definition ex_drop_a :: Dropped where
  "ex_drop_a =
     \<lparr> dropped_file = \<lparr> file_name = ''a.png'', file_type = ''image/png'' \<rparr>,
       random36 = ''0.4fzyo82mvyr'',
       objectURL = ''blob:a'' \<rparr>"

definition ex_drop_b :: Dropped where
  "ex_drop_b =
     \<lparr> dropped_file = \<lparr> file_name = ''b.jpg'', file_type = ''image/jpeg'' \<rparr>,
       random36 = ''0.9x3k2lq07uf'',
       objectURL = ''blob:b'' \<rparr>"

definition ex_empty :: App where
  "ex_empty =
     \<lparr> photos = [], isProcessingAll = False, editingPhotoId = None, hasApiKey = None,
       restorationMode = Standard, trace = [] \<rparr>"

definition ex_app :: App where
  "ex_app = onDrop [ex_drop_a, ex_drop_b] ex_empty"

definition ex_photo_a :: PhotoItem where
  "ex_photo_a = newPhoto ex_drop_a"

definition ex_photo_b :: PhotoItem where
  "ex_photo_b = newPhoto ex_drop_b"

text \<open>Responses of the remote model.\<close>

definition response_of_parts :: "Part list \<Rightarrow> Response" where
  "response_of_parts ps =
     \<lparr> candidates =
         Some [\<lparr> finishReason = Some ''STOP'', content = Some \<lparr> parts = Some ps \<rparr> \<rparr>] \<rparr>"

definition text_part :: "string \<Rightarrow> Part" where
  "text_part t = \<lparr> inlineData = None, part_text = Some t \<rparr>"

definition image_part :: "string \<Rightarrow> string \<Rightarrow> Part" where
  "image_part mime d =
     \<lparr> inlineData = Some \<lparr> mimeType = Some mime, data = Some d \<rparr>, part_text = None \<rparr>"

definition ex_image_response :: Response where
  "ex_image_response = response_of_parts [text_part ''Here it is.'', image_part ''image/png'' ''QUJD'']"

definition ex_env :: ProcessEnv where
  "ex_env = \<lparr> API_KEY = None, GEMINI_API_KEY = Some ''key'' \<rparr>"

text \<open>
  Attempts: the remote model answers with an image after 1.2 seconds; it fails with a
  quota error; the file takes a minute to read and the model 40 seconds to answer.
\<close>

definition ex_attempt_ok :: Attempt where
  "ex_attempt_ok =
     \<lparr> read_ms = 5, read_result = Some ''data:image/png;base64,AAAA'',
       process_env = ex_env,
       generateContent = (\<lambda>r. After 1200 (Inr ex_image_response)),
       arrivals = [] \<rparr>"

definition ex_attempt_quota :: Attempt where
  "ex_attempt_quota =
     ex_attempt_ok
       \<lparr> generateContent := (\<lambda>r. After 300 (Inl (Error_new ''429 Too Many Requests''))) \<rparr>"

definition ex_attempt_slow_read :: Attempt where
  "ex_attempt_slow_read =
     ex_attempt_ok
       \<lparr> read_ms := 60000,
         generateContent := (\<lambda>r. After 40000 (Inr ex_image_response)) \<rparr>"

definition ex_attempt_stalled :: Attempt where
  "ex_attempt_stalled = ex_attempt_ok \<lparr> generateContent := (\<lambda>r. Never) \<rparr>"

definition ex_attempt_auth :: Attempt where
  "ex_attempt_auth =
     ex_attempt_ok
       \<lparr> generateContent :=
           (\<lambda>r. After 300 (Inl (Error_new ''404 Requested entity was not found.''))) \<rparr>"

definition ex_attempt_unreadable :: Attempt where
  "ex_attempt_unreadable = ex_attempt_ok \<lparr> read_result := None \<rparr>"

text \<open>The first photo fails on the quota, then is retried with success.\<close>

definition ex_failed :: App where
  "ex_failed = processPhoto ex_attempt_quota ex_photo_a ex_app"

definition ex_retried :: App where
  "ex_retried = processPhoto ex_attempt_ok (photos ex_failed ! 0) ex_failed"

text \<open>
  More responses: no candidate at all; generation stopped for safety, with no content;
  a candidate with no parts; plain text; a part with empty text; and two texts that
  speak of safety.
\<close>

definition ex_no_candidates :: Response where
  "ex_no_candidates = \<lparr> candidates = Some [] \<rparr>"

definition ex_stopped_response :: Response where
  "ex_stopped_response =
     \<lparr> candidates = Some [\<lparr> finishReason = Some ''SAFETY'', content = None \<rparr>] \<rparr>"

definition ex_no_parts_response :: Response where
  "ex_no_parts_response = response_of_parts []"

definition ex_text_response :: Response where
  "ex_text_response = response_of_parts [text_part ''I can only restore photographs.'']"

definition ex_blank_response :: Response where
  "ex_blank_response = response_of_parts [text_part []]"

definition ex_safety_text :: string where
  "ex_safety_text = ''Safety policies prevent me from editing this image.''"

definition ex_safety_response :: Response where
  "ex_safety_response = response_of_parts [text_part ex_safety_text]"

definition ex_safety_note_response :: Response where
  "ex_safety_note_response = response_of_parts [text_part ''Blocked (Safety).'']"

text \<open>A remote model that answers every request with the same response after 1.2 seconds.\<close>

definition answering :: "Response \<Rightarrow> Request \<Rightarrow> (thrown + Response) promise" where
  "answering response r = After 1200 (Inr response)"

text \<open>
  Two files whose draws are 0.5 and 0.25: in base 36 these are written "0.i" and "0.9".
\<close>

definition ex_drop_half :: Dropped where
  "ex_drop_half =
     \<lparr> dropped_file = \<lparr> file_name = ''c.png'', file_type = ''image/png'' \<rparr>,
       random36 = ''0.i'',
       objectURL = ''blob:c'' \<rparr>"

definition ex_drop_quarter :: Dropped where
  "ex_drop_quarter =
     \<lparr> dropped_file = \<lparr> file_name = ''d.png'', file_type = ''image/png'' \<rparr>,
       random36 = ''0.9'',
       objectURL = ''blob:d'' \<rparr>"

text \<open>
  A batch: the first call fails on the quota, and a file is dropped while it is in
  flight; the later calls succeed.
\<close>

definition ex_attempts :: "nat \<Rightarrow> Attempt" where
  "ex_attempts k =
     (if k = 0 then ex_attempt_quota \<lparr> arrivals := [ex_drop_half] \<rparr> else ex_attempt_ok)"


section \<open>Facts about strings and the examples\<close>

lemma includes_after_prefix:
  assumes "needle \<noteq> []" and "hd needle \<notin> set p"
  shows "js_includes (p @ t) needle = js_includes t needle"
  using assms
proof (induction p)
  case Nil
  then show ?case by simp
next
  case (Cons x p)
  then have "\<not> prefix needle (x # p @ t)"
    by (cases needle) auto
  with Cons show ?case
    by (simp add: js_includes_def sublist_Cons_right)
qed

lemma includes_before_suffix:
  assumes "needle \<noteq> []" and "last needle \<notin> set s"
  shows "js_includes (t @ s) needle = js_includes t needle"
proof -
  have "js_includes (rev s @ rev t) (rev needle) = js_includes (rev t) (rev needle)"
    using assms by (intro includes_after_prefix) (simp_all add: hd_rev)
  then show ?thesis
    by (simp add: js_includes_def sublist_rev_left)
qed

lemma ex_app_photos: "photos ex_app = [ex_photo_a, ex_photo_b]"
  by (simp add: ex_app_def onDrop_def ex_empty_def ex_photo_a_def ex_photo_b_def)

lemma ex_ids: "item_id ex_photo_a = ''82mvyr''" "item_id ex_photo_b = ''lq07uf''"
  by (simp_all add: ex_photo_a_def ex_photo_b_def newPhoto_def ex_drop_a_def ex_drop_b_def)

lemma ex_status: "status ex_photo_a = Pending" "status ex_photo_b = Pending"
  by (simp_all add: ex_photo_a_def ex_photo_b_def newPhoto_def)

section \<open>Adjustments\<close>

lemma photos_updateAdjustment:
  "photos (updateAdjustment i key v st) =
     map (\<lambda>p. if item_id p = i
               then p\<lparr>adjustments := setAdjustment key v (adjustments p)\<rparr> else p)
       (photos st)"
  by (simp add: updateAdjustment_def)

lemma getAdjustment_setAdjustment:
  "getAdjustment k (setAdjustment key v adj) = (if k = key then v else getAdjustment k adj)"
  by (cases key; cases k) (simp_all add: getAdjustment_def setAdjustment_def)

text \<open>
  C10. A call \<open>updateAdjustment i key v\<close> changes nothing but the adjustment \<open>key\<close> of
  the items whose id is \<open>i\<close>: at every position of the collection the id, file, preview,
  status, result, error and the three other adjustments are what they were, an item with
  another id is unchanged altogether, and so are the other state variables.
\<close>

theorem updateAdjustment_frame:
  assumes "n < length (photos st)"
  shows "length (photos (updateAdjustment i key v st)) = length (photos st)
     \<and> item_id (photos (updateAdjustment i key v st) ! n) = item_id (photos st ! n)
     \<and> item_file (photos (updateAdjustment i key v st) ! n) = item_file (photos st ! n)
     \<and> preview (photos (updateAdjustment i key v st) ! n) = preview (photos st ! n)
     \<and> status (photos (updateAdjustment i key v st) ! n) = status (photos st ! n)
     \<and> result (photos (updateAdjustment i key v st) ! n) = result (photos st ! n)
     \<and> error (photos (updateAdjustment i key v st) ! n) = error (photos st ! n)
     \<and> (\<forall>k. k \<noteq> key \<longrightarrow>
           getAdjustment k (adjustments (photos (updateAdjustment i key v st) ! n))
             = getAdjustment k (adjustments (photos st ! n)))
     \<and> (item_id (photos st ! n) \<noteq> i \<longrightarrow>
           photos (updateAdjustment i key v st) ! n = photos st ! n)
     \<and> isProcessingAll (updateAdjustment i key v st) = isProcessingAll st
     \<and> editingPhotoId (updateAdjustment i key v st) = editingPhotoId st
     \<and> hasApiKey (updateAdjustment i key v st) = hasApiKey st
     \<and> restorationMode (updateAdjustment i key v st) = restorationMode st
     \<and> trace (updateAdjustment i key v st) = trace st"
  using assms
  by (simp add: photos_updateAdjustment getAdjustment_setAdjustment)
     (simp add: updateAdjustment_def)

theorem updateAdjustment_frame_witness:
  "status (photos (updateAdjustment ''82mvyr'' Saturation 120 ex_app) ! 0) = Pending
   \<and> getAdjustment Brightness
        (adjustments (photos (updateAdjustment ''82mvyr'' Saturation 120 ex_app) ! 0)) = 100
   \<and> photos (updateAdjustment ''82mvyr'' Saturation 120 ex_app) ! 1 = ex_photo_b"
  using updateAdjustment_frame [of 0 ex_app "''82mvyr''" Saturation 120]
        updateAdjustment_frame [of 1 ex_app "''82mvyr''" Saturation 120]
  by (simp add: ex_app_photos ex_ids)
     (simp add: ex_photo_a_def newPhoto_def getAdjustment_def)

text \<open>
  C2, as the specification states it, fails: \<open>updateAdjustment\<close> does not clamp. A
  saturation of 250 is stored as 250, above the 200 the slider declares.
\<close>

theorem updateAdjustment_unclamped_counterexample:
  "getAdjustment Saturation
     (adjustments (photos (updateAdjustment ''82mvyr'' Saturation 250 ex_app) ! 0)) = 250
   \<and> slider_max Saturation = 200
   \<and> item_id (photos ex_app ! 0) = ''82mvyr''"
  by (simp add: photos_updateAdjustment getAdjustment_setAdjustment ex_app_photos ex_ids
        slider_max_def)

text \<open>
  C2, amended. \<open>updateAdjustment i key v\<close> stores \<open>v\<close> itself as the adjustment \<open>key\<close>
  of every item whose id is \<open>i\<close>; the stored value is therefore within the range the
  slider declares exactly when \<open>v\<close> is. The bounds are kept by the sliders that call it.
\<close>

theorem updateAdjustment_stores_value:
  assumes "n < length (photos st)" and "item_id (photos st ! n) = i"
  shows "getAdjustment key (adjustments (photos (updateAdjustment i key v st) ! n)) = v
     \<and> ((slider_min key \<le> getAdjustment key (adjustments (photos (updateAdjustment i key v st) ! n))
          \<and> getAdjustment key (adjustments (photos (updateAdjustment i key v st) ! n))
               \<le> slider_max key)
         = (slider_min key \<le> v \<and> v \<le> slider_max key))"
  using assms by (simp add: photos_updateAdjustment getAdjustment_setAdjustment)

theorem updateAdjustment_stores_value_witness:
  "getAdjustment Sharpness
     (adjustments (photos (updateAdjustment ''lq07uf'' Sharpness 40 ex_app) ! 1)) = 40
   \<and> slider_min Sharpness \<le> getAdjustment Sharpness
        (adjustments (photos (updateAdjustment ''lq07uf'' Sharpness 40 ex_app) ! 1))
   \<and> getAdjustment Sharpness
        (adjustments (photos (updateAdjustment ''lq07uf'' Sharpness 40 ex_app) ! 1))
        \<le> slider_max Sharpness"
  using updateAdjustment_stores_value [of 1 ex_app "''lq07uf''" Sharpness 40]
  by (simp add: ex_app_photos ex_ids slider_min_def slider_max_def)


section \<open>Processing one photo\<close>

lemma nth_photos_processed:
  assumes "n < length (photos st)"
  shows "photos (settlePhoto a photo mode (startPhoto photo st)) ! n =
     (if item_id (photos st ! n) = item_id photo
      then (case tryBody a mode photo of
              Inr r \<Rightarrow> (photos st ! n)\<lparr>status := Completed, result := Some r\<rparr>
            | Inl err \<Rightarrow> (photos st ! n)\<lparr>status := Error, error := Some (errorMessageOf err)\<rparr>)
      else photos st ! n)"
  using assms
  by (simp add: settlePhoto_def startPhoto_def markProcessing_def markCompleted_def
        markError_def catchFailure_def emit_def onDrop_def nth_append Let_def
      split: sum.split)

lemma length_photos_processed:
  "length (photos (settlePhoto a photo mode (startPhoto photo st)))
     = length (photos st) + length (arrivals a)"
  by (simp add: settlePhoto_def startPhoto_def markProcessing_def markCompleted_def
        markError_def catchFailure_def emit_def onDrop_def Let_def
      split: sum.split)

lemma trace_processed:
  "trace (settlePhoto a photo mode (startPhoto photo st)) =
     trace st @ Started (item_id photo) # map Requested (tryBody_calls a mode photo)
       @ [Finished (item_id photo) (case tryBody a mode photo of Inr r \<Rightarrow> Completed | Inl err \<Rightarrow> Error)]"
  by (simp add: settlePhoto_def startPhoto_def markProcessing_def markCompleted_def
        markError_def catchFailure_def emit_def onDrop_def Let_def
      split: sum.split)

lemma hasApiKey_processed:
  "hasApiKey (settlePhoto a photo mode (startPhoto photo st)) =
     (case tryBody a mode photo of
        Inr r \<Rightarrow> hasApiKey st
      | Inl err \<Rightarrow> if isAuthFailure err then Some False else hasApiKey st)"
  by (simp add: settlePhoto_def startPhoto_def markProcessing_def markCompleted_def
        markError_def catchFailure_def emit_def onDrop_def Let_def
      split: sum.split)

lemma processPhoto_startable:
  assumes "status photo = Pending \<or> status photo = Error"
  shows "processPhoto a photo st = settlePhoto a photo (restorationMode st) (startPhoto photo st)"
  using assms by (auto simp add: processPhoto_def)

lemma ex_key: "\<not> falsy (js_or (API_KEY ex_env) (GEMINI_API_KEY ex_env))"
  by (simp add: ex_env_def js_or_def falsy_def)

lemma ex_image_url:
  "tryCatch (Inr ex_image_response) = Inr ''data:image/png;base64,QUJD''"
  by (simp add: tryCatch_def classifyResponse_def ex_image_response_def response_of_parts_def
        first_candidate_def content_parts_def text_part_def image_part_def interpolate_def)

lemma ex_tryBody_ok:
  "tryBody ex_attempt_ok mode photo = Inr ''data:image/png;base64,QUJD''"
  by (simp add: tryBody_def ex_attempt_ok_def restoreImage_def ex_key race_def timeout_ms_def
        ex_image_url)

lemma ex_tryBody_quota:
  "tryBody ex_attempt_quota mode photo = Inl (Error_new ''429 Too Many Requests'')"
  by (simp add: tryBody_def ex_attempt_quota_def ex_attempt_ok_def restoreImage_def ex_key
        race_def timeout_ms_def tryCatch_def catchBlock_def Error_new_def opt_includes_def
        js_includes_def sublist_code)

lemma ex_quota_message: "errorMessageOf (Error_new ''429 Too Many Requests'') = msg_quota"
  by (simp add: errorMessageOf_def isAuthFailure_def isQuotaFailure_def Error_new_def
        opt_includes_def js_includes_def sublist_code)

lemma ex_arrivals:
  "arrivals ex_attempt_ok = []" "arrivals ex_attempt_quota = []"
  "arrivals ex_attempt_slow_read = []" "arrivals ex_attempt_stalled = []"
  "arrivals ex_attempt_auth = []" "arrivals ex_attempt_unreadable = []"
  by (simp_all add: ex_attempt_ok_def ex_attempt_quota_def ex_attempt_slow_read_def
        ex_attempt_stalled_def ex_attempt_auth_def ex_attempt_unreadable_def)

lemma ex_failed_photos:
  "photos ex_failed = [ex_photo_a\<lparr>status := Error, error := Some msg_quota\<rparr>, ex_photo_b]"
proof (rule nth_equalityI)
  show len: "length (photos ex_failed)
      = length [ex_photo_a\<lparr>status := Error, error := Some msg_quota\<rparr>, ex_photo_b]"
    by (simp add: ex_failed_def processPhoto_startable ex_status length_photos_processed
          ex_app_photos ex_arrivals)
  fix n assume "n < length (photos ex_failed)"
  with len have "n = 0 \<or> n = 1" by auto
  then show "photos ex_failed ! n
      = [ex_photo_a\<lparr>status := Error, error := Some msg_quota\<rparr>, ex_photo_b] ! n"
    by (auto simp add: ex_failed_def processPhoto_startable ex_status nth_photos_processed
          ex_app_photos ex_tryBody_quota ex_quota_message ex_ids)
qed


text \<open>
  C1, as the specification states it, fails: neither transition clears the other field.
  The first photo fails on the quota and is retried with success; it is then completed
  with both a result and the error message of the failed attempt.
\<close>

theorem result_and_error_both_counterexample:
  "status (photos ex_retried ! 0) = Completed
   \<and> result (photos ex_retried ! 0) = Some ''data:image/png;base64,QUJD''
   \<and> error (photos ex_retried ! 0) = Some msg_quota"
  by (simp add: ex_retried_def ex_failed_photos processPhoto_startable nth_photos_processed
        ex_tryBody_ok)

text \<open>
  C1, amended. For an item that \<open>processPhoto\<close> is started on (status pending or
  error): the start transition sets the status to processing and leaves result and
  error as they were; when the attempt succeeds the item is completed with the new
  result and its error is left as it was; when the attempt fails the item is in error
  with the message of the failure and its result is left as it was. Nothing clears
  either field, so both are populated after a failure followed by a successful retry.
\<close>

theorem processPhoto_result_error:
  assumes "n < length (photos st)"
    and "item_id (photos st ! n) = item_id photo"
    and "status photo = Pending \<or> status photo = Error"
  shows "status (photos (startPhoto photo st) ! n) = Processing
     \<and> result (photos (startPhoto photo st) ! n) = result (photos st ! n)
     \<and> error (photos (startPhoto photo st) ! n) = error (photos st ! n)
     \<and> (case tryBody a (restorationMode st) photo of
           Inr r \<Rightarrow>
             status (photos (processPhoto a photo st) ! n) = Completed
             \<and> result (photos (processPhoto a photo st) ! n) = Some r
             \<and> error (photos (processPhoto a photo st) ! n) = error (photos st ! n)
         | Inl err \<Rightarrow>
             status (photos (processPhoto a photo st) ! n) = Error
             \<and> error (photos (processPhoto a photo st) ! n) = Some (errorMessageOf err)
             \<and> result (photos (processPhoto a photo st) ! n) = result (photos st ! n))"
proof -
  have "status (photos (startPhoto photo st) ! n) = Processing
     \<and> result (photos (startPhoto photo st) ! n) = result (photos st ! n)
     \<and> error (photos (startPhoto photo st) ! n) = error (photos st ! n)"
    using assms(1,2) by (simp add: startPhoto_def markProcessing_def emit_def)
  moreover have "processPhoto a photo st
      = settlePhoto a photo (restorationMode st) (startPhoto photo st)"
    using assms(3) by (rule processPhoto_startable)
  ultimately show ?thesis
    using assms(1,2) by (simp add: nth_photos_processed split: sum.split)
qed

theorem processPhoto_result_error_witness:
  "status (photos (processPhoto ex_attempt_quota ex_photo_a ex_app) ! 0) = Error
   \<and> error (photos (processPhoto ex_attempt_quota ex_photo_a ex_app) ! 0) = Some msg_quota
   \<and> result (photos (processPhoto ex_attempt_quota ex_photo_a ex_app) ! 0) = None
   \<and> status (photos (processPhoto ex_attempt_ok ex_photo_b ex_app) ! 1) = Completed
   \<and> error (photos (processPhoto ex_attempt_ok ex_photo_b ex_app) ! 1) = None"
  using processPhoto_result_error [of 0 ex_app ex_photo_a ex_attempt_quota]
        processPhoto_result_error [of 1 ex_app ex_photo_b ex_attempt_ok]
  by (simp add: ex_app_photos ex_status ex_tryBody_quota ex_tryBody_ok ex_quota_message)
     (simp add: ex_photo_a_def ex_photo_b_def newPhoto_def)


section \<open>Failures of an attempt\<close>

lemma nth_photos_catchFailure:
  assumes "n < length (photos st)" and "item_id (photos st ! n) = item_id photo"
  shows "photos (catchFailure photo err st) ! n
     = (photos st ! n)\<lparr>status := Error, error := Some (errorMessageOf err)\<rparr>"
  using assms by (simp add: catchFailure_def markError_def)

lemma hasApiKey_catchFailure:
  "hasApiKey (catchFailure photo err st)
     = (if isAuthFailure err then Some False else hasApiKey st)"
  by (simp add: catchFailure_def markError_def)

lemma ex_tryBody_auth:
  "tryBody ex_attempt_auth mode photo
     = Inl (Error_new ''404 Requested entity was not found.'')"
  by (simp add: tryBody_def ex_attempt_auth_def ex_attempt_ok_def restoreImage_def ex_key
        race_def timeout_ms_def tryCatch_def catchBlock_def Error_new_def opt_includes_def
        js_includes_def sublist_code)

lemma ex_tryBody_unreadable: "tryBody ex_attempt_unreadable mode photo = Inl (Thrown None)"
  by (simp add: tryBody_def ex_attempt_unreadable_def ex_attempt_ok_def)

lemma timeout_message: "errorMessageOf (Error_new msg_timeout) = msg_timeout"
  by (simp add: errorMessageOf_def isAuthFailure_def isQuotaFailure_def isFetchFailure_def
        Error_new_def opt_includes_def js_includes_def sublist_code msg_timeout_def js_or_def)

text \<open>
  C5. The \<open>catch\<close> block of \<open>processPhoto\<close> puts the item in error with a message
  that the message of the failure determines, the cases being tried in this order: a
  message with "Requested entity was not found" gives the credential-invalid text and
  sets \<open>hasApiKey\<close> to false; otherwise \<open>hasApiKey\<close> is unchanged, and a message with
  "quota", "429" or "RESOURCE_EXHAUSTED" gives the quota text; otherwise a message with
  "fetch failed" gives the connectivity text; otherwise the message itself is stored,
  or the default text when the failure has no message or an empty one. When the body
  of \<open>processPhoto\<close> fails, the call ends with exactly this state of the item and of
  \<open>hasApiKey\<close>, and its last effect is the end of the call: the failure is not passed on.
\<close>

theorem failure_classified:
  assumes "n < length (photos st)" and "item_id (photos st ! n) = item_id photo"
  shows "status (photos (catchFailure photo err st) ! n) = Error
     \<and> (opt_includes (message err) ''Requested entity was not found'' \<longrightarrow>
          error (photos (catchFailure photo err st) ! n) = Some msg_key_invalid
          \<and> hasApiKey (catchFailure photo err st) = Some False)
     \<and> (\<not> opt_includes (message err) ''Requested entity was not found'' \<longrightarrow>
          hasApiKey (catchFailure photo err st) = hasApiKey st)
     \<and> (\<not> opt_includes (message err) ''Requested entity was not found''
          \<and> (opt_includes (message err) ''quota'' \<or> opt_includes (message err) ''429''
               \<or> opt_includes (message err) ''RESOURCE_EXHAUSTED'') \<longrightarrow>
          error (photos (catchFailure photo err st) ! n) = Some msg_quota)
     \<and> (\<not> opt_includes (message err) ''Requested entity was not found''
          \<and> \<not> opt_includes (message err) ''quota'' \<and> \<not> opt_includes (message err) ''429''
          \<and> \<not> opt_includes (message err) ''RESOURCE_EXHAUSTED''
          \<and> opt_includes (message err) ''fetch failed'' \<longrightarrow>
          error (photos (catchFailure photo err st) ! n) = Some msg_connectivity)
     \<and> (\<not> opt_includes (message err) ''Requested entity was not found''
          \<and> \<not> opt_includes (message err) ''quota'' \<and> \<not> opt_includes (message err) ''429''
          \<and> \<not> opt_includes (message err) ''RESOURCE_EXHAUSTED''
          \<and> \<not> opt_includes (message err) ''fetch failed'' \<longrightarrow>
          error (photos (catchFailure photo err st) ! n)
            = Some (case message err of
                      None \<Rightarrow> msg_default
                    | Some m \<Rightarrow> if m = [] then msg_default else m))
     \<and> ((status photo = Pending \<or> status photo = Error)
          \<and> tryBody a (restorationMode st) photo = Inl err \<longrightarrow>
          status (photos (processPhoto a photo st) ! n) = Error
          \<and> error (photos (processPhoto a photo st) ! n)
              = error (photos (catchFailure photo err st) ! n)
          \<and> hasApiKey (processPhoto a photo st) = hasApiKey (catchFailure photo err st)
          \<and> last (trace (processPhoto a photo st)) = Finished (item_id photo) Error)"
proof -
  have handler: "photos (catchFailure photo err st) ! n
      = (photos st ! n)\<lparr>status := Error, error := Some (errorMessageOf err)\<rparr>"
    using assms by (rule nth_photos_catchFailure)
  have msg: "errorMessageOf err =
      (if opt_includes (message err) ''Requested entity was not found'' then msg_key_invalid
       else if opt_includes (message err) ''quota'' \<or> opt_includes (message err) ''429''
               \<or> opt_includes (message err) ''RESOURCE_EXHAUSTED'' then msg_quota
       else if opt_includes (message err) ''fetch failed'' then msg_connectivity
       else (case message err of
               None \<Rightarrow> msg_default
             | Some m \<Rightarrow> if m = [] then msg_default else m))"
    by (simp add: errorMessageOf_def isAuthFailure_def isQuotaFailure_def isFetchFailure_def
          js_or_def split: option.split)
  have key: "hasApiKey (catchFailure photo err st)
      = (if opt_includes (message err) ''Requested entity was not found'' then Some False
         else hasApiKey st)"
    by (simp add: hasApiKey_catchFailure isAuthFailure_def)
  have call: "status (photos (processPhoto a photo st) ! n) = Error
        \<and> error (photos (processPhoto a photo st) ! n)
            = error (photos (catchFailure photo err st) ! n)
        \<and> hasApiKey (processPhoto a photo st) = hasApiKey (catchFailure photo err st)
        \<and> last (trace (processPhoto a photo st)) = Finished (item_id photo) Error"
    if "status photo = Pending \<or> status photo = Error"
      and "tryBody a (restorationMode st) photo = Inl err"
    using that assms
    by (simp add: processPhoto_startable nth_photos_processed hasApiKey_processed
          trace_processed handler hasApiKey_catchFailure)
  show ?thesis
    using call by (simp add: handler msg key)
qed

theorem failure_classified_witness:
  "error (photos (catchFailure ex_photo_a (Error_new ''TypeError: fetch failed'') ex_app) ! 0)
     = Some msg_connectivity
   \<and> error (photos (processPhoto ex_attempt_quota ex_photo_a ex_app) ! 0) = Some msg_quota
   \<and> error (photos (processPhoto ex_attempt_auth ex_photo_a ex_app) ! 0) = Some msg_key_invalid
   \<and> hasApiKey (processPhoto ex_attempt_auth ex_photo_a ex_app) = Some False
   \<and> hasApiKey ex_app = None
   \<and> error (photos (processPhoto ex_attempt_unreadable ex_photo_a ex_app) ! 0) = Some msg_default
   \<and> status (photos (processPhoto ex_attempt_unreadable ex_photo_a ex_app) ! 0) = Error"
proof -
  have n: "0 < length (photos ex_app)" and i: "item_id (photos ex_app ! 0) = item_id ex_photo_a"
    by (simp_all add: ex_app_photos)
  have fetch: "opt_includes (message (Error_new ''TypeError: fetch failed'')) ''fetch failed''"
    "\<not> opt_includes (message (Error_new ''TypeError: fetch failed'')) ''Requested entity was not found''"
    "\<not> opt_includes (message (Error_new ''TypeError: fetch failed'')) ''quota''"
    "\<not> opt_includes (message (Error_new ''TypeError: fetch failed'')) ''429''"
    "\<not> opt_includes (message (Error_new ''TypeError: fetch failed'')) ''RESOURCE_EXHAUSTED''"
    by (simp_all add: Error_new_def opt_includes_def js_includes_def sublist_code)
  have quota: "opt_includes (message (Error_new ''429 Too Many Requests'')) ''429''"
    "\<not> opt_includes (message (Error_new ''429 Too Many Requests'')) ''Requested entity was not found''"
    by (simp_all add: Error_new_def opt_includes_def js_includes_def sublist_code)
  have auth: "opt_includes (message (Error_new ''404 Requested entity was not found.''))
      ''Requested entity was not found''"
    by (simp add: Error_new_def opt_includes_def js_includes_def sublist_code)
  have none: "\<not> opt_includes (message (Thrown None)) needle" for needle
    by (simp add: opt_includes_def)
  have "error (photos (catchFailure ex_photo_a (Error_new ''TypeError: fetch failed'') ex_app) ! 0)
      = Some msg_connectivity"
    using failure_classified [OF n i, of "Error_new ''TypeError: fetch failed''" ex_attempt_ok]
      fetch by simp
  moreover have "error (photos (processPhoto ex_attempt_quota ex_photo_a ex_app) ! 0)
      = Some msg_quota"
    using failure_classified [OF n i, of "Error_new ''429 Too Many Requests''" ex_attempt_quota]
      quota by (simp add: ex_status ex_tryBody_quota)
  moreover have "error (photos (processPhoto ex_attempt_auth ex_photo_a ex_app) ! 0)
        = Some msg_key_invalid
      \<and> hasApiKey (processPhoto ex_attempt_auth ex_photo_a ex_app) = Some False"
    using failure_classified [OF n i, of "Error_new ''404 Requested entity was not found.''"
        ex_attempt_auth]
      auth by (simp add: ex_status ex_tryBody_auth)
  moreover have "error (photos (processPhoto ex_attempt_unreadable ex_photo_a ex_app) ! 0)
        = Some msg_default
      \<and> status (photos (processPhoto ex_attempt_unreadable ex_photo_a ex_app) ! 0) = Error"
    using failure_classified [OF n i, of "Thrown None" ex_attempt_unreadable]
      none by (simp add: ex_status ex_tryBody_unreadable)
  moreover have "hasApiKey ex_app = None"
    by (simp add: ex_app_def onDrop_def ex_empty_def)
  ultimately show ?thesis by simp
qed

section \<open>The deadline\<close>

text \<open>
  C6, as the specification states it, fails: the 90 seconds are not counted from the
  call of \<open>restoreImage\<close>. The timer is set before the file is read. Here the file takes
  60 seconds to read and the restoration settles, with an image, 40 seconds after it was
  called, well within 90 seconds; the item still ends in error with the timeout message.
\<close>

theorem deadline_counterexample:
  "read_result ex_attempt_slow_read = Some ''data:image/png;base64,AAAA''
   \<and> restoreImage (process_env ex_attempt_slow_read) (generateContent ex_attempt_slow_read)
        ''data:image/png;base64,AAAA'' (file_type (item_file ex_photo_a))
        (restorationMode ex_app)
       = After 40000 (Inr ''data:image/png;base64,QUJD'')
   \<and> 40000 \<le> timeout_ms
   \<and> status (photos (processPhoto ex_attempt_slow_read ex_photo_a ex_app) ! 0) = Error
   \<and> error (photos (processPhoto ex_attempt_slow_read ex_photo_a ex_app) ! 0)
       = Some msg_timeout"
proof -
  have promise: "restoreImage (process_env ex_attempt_slow_read)
        (generateContent ex_attempt_slow_read) b mime mode
      = After 40000 (Inr ''data:image/png;base64,QUJD'')" for b mime mode
    by (simp add: ex_attempt_slow_read_def ex_attempt_ok_def restoreImage_def ex_key
          ex_image_url)
  have read: "read_result ex_attempt_slow_read = Some ''data:image/png;base64,AAAA''"
    "read_ms ex_attempt_slow_read = 60000"
    by (simp_all add: ex_attempt_slow_read_def ex_attempt_ok_def)
  have body: "tryBody ex_attempt_slow_read mode photo = Inl (Error_new msg_timeout)"
    for mode photo
    by (simp add: tryBody_def read promise race_def timeout_ms_def)
  show ?thesis
    by (simp add: read promise processPhoto_startable ex_status nth_photos_processed
          ex_app_photos body timeout_message timeout_ms_def)
qed

text \<open>
  C6, amended. The restoration is raced against a timer of 90 seconds that is set when
  \<open>processPhoto\<close> starts, before the file is read. When the file has been read and the
  restoration has not settled by the time the timer fires (it never settles, or it
  settles more than 90 seconds after the timer was set, the time of reading the file
  included), the item ends in error with the timeout message, whatever the restoration
  yields later. This covers every restoration that has not settled 90 seconds after it
  was called.
\<close>

theorem processPhoto_timeout:
  assumes "n < length (photos st)"
    and "item_id (photos st ! n) = item_id photo"
    and "status photo = Pending \<or> status photo = Error"
    and "read_result a = Some base64"
    and "restoreImage (process_env a) (generateContent a) base64
           (file_type (item_file photo)) (restorationMode st) = Never
         \<or> (\<exists>ms r. restoreImage (process_env a) (generateContent a) base64
                      (file_type (item_file photo)) (restorationMode st) = After ms r
                   \<and> timeout_ms < read_ms a + ms)"
  shows "status (photos (processPhoto a photo st) ! n) = Error
     \<and> error (photos (processPhoto a photo st) ! n) = Some msg_timeout"
proof -
  have "tryBody a (restorationMode st) photo = Inl (Error_new msg_timeout)"
    using assms(4,5) by (auto simp add: tryBody_def race_def)
  then show ?thesis
    using assms(1,2,3)
    by (simp add: processPhoto_startable nth_photos_processed timeout_message)
qed

theorem processPhoto_timeout_witness:
  "status (photos (processPhoto ex_attempt_stalled ex_photo_b ex_app) ! 1) = Error
   \<and> error (photos (processPhoto ex_attempt_stalled ex_photo_b ex_app) ! 1) = Some msg_timeout
   \<and> generateContent ex_attempt_stalled (request ''x'' ''image/png'' Ultra) = Never"
proof -
  have "restoreImage (process_env ex_attempt_stalled) (generateContent ex_attempt_stalled)
      ''data:image/png;base64,AAAA'' (file_type (item_file ex_photo_b))
      (restorationMode ex_app) = Never"
    by (simp add: ex_attempt_stalled_def ex_attempt_ok_def restoreImage_def ex_key)
  moreover have "read_result ex_attempt_stalled = Some ''data:image/png;base64,AAAA''"
    by (simp add: ex_attempt_stalled_def ex_attempt_ok_def)
  ultimately show ?thesis
    using processPhoto_timeout [of 1 ex_app ex_photo_b ex_attempt_stalled
        "''data:image/png;base64,AAAA''"]
    by (simp add: ex_app_photos ex_status)
       (simp add: ex_attempt_stalled_def ex_attempt_ok_def)
qed


section \<open>The response of the remote model\<close>

lemma first_image_find:
  "first_image ps =
     (case find (\<lambda>p. inlineData p \<noteq> None) ps of
        None \<Rightarrow> None
      | Some part \<Rightarrow>
          (case inlineData part of
             None \<Rightarrow> None
           | Some d \<Rightarrow>
               Some (''data:'' @ interpolate (mimeType d) @ '';base64,'' @ interpolate (data d))))"
  by (induction ps) (auto split: option.split)

lemma truthy_text_eq:
  "truthy_text = (\<lambda>p. part_text p \<noteq> None \<and> part_text p \<noteq> Some [])"
  by (rule ext) (simp add: truthy_text_def split: option.split)

lemma catchBlock_fixed:
  "catchBlock (Error_new msg_no_candidate) = Error_new msg_no_candidate"
  "catchBlock (Error_new msg_no_parts) = Error_new msg_no_parts"
  "catchBlock (Error_new msg_no_image) = Error_new msg_no_image"
  by (simp_all add: catchBlock_def Error_new_def opt_includes_def js_includes_def sublist_code
        msg_no_candidate_def msg_no_parts_def msg_no_image_def)

lemma catchBlock_message:
  "catchBlock (Error_new m) =
     (if js_includes m ''fetch failed'' then Error_new msg_network
      else if js_includes m ''Safety'' then Error_new msg_safety
      else Error_new m)"
  by (simp add: catchBlock_def Error_new_def opt_includes_def)

lemma includes_stopped:
  "js_includes (msg_stopped_prefix @ r @ msg_stopped_suffix) ''fetch failed''
     = js_includes r ''fetch failed''"
  "js_includes (msg_stopped_prefix @ r @ msg_stopped_suffix) ''Safety'' = js_includes r ''Safety''"
proof -
  have p: "CHR ''f'' \<notin> set msg_stopped_prefix" "CHR ''S'' \<notin> set msg_stopped_prefix"
    by (simp_all add: msg_stopped_prefix_def)
  have s: "CHR ''d'' \<notin> set msg_stopped_suffix" "CHR ''y'' \<notin> set msg_stopped_suffix"
    by (simp_all add: msg_stopped_suffix_def)
  show "js_includes (msg_stopped_prefix @ r @ msg_stopped_suffix) ''fetch failed''
      = js_includes r ''fetch failed''"
    using p(1) s(1) by (simp add: includes_after_prefix includes_before_suffix)
  show "js_includes (msg_stopped_prefix @ r @ msg_stopped_suffix) ''Safety''
      = js_includes r ''Safety''"
    using p(2) s(2) by (simp add: includes_after_prefix includes_before_suffix)
qed

lemma includes_text:
  "js_includes (msg_text_prefix @ t) ''fetch failed'' = js_includes t ''fetch failed''"
  "js_includes (msg_text_prefix @ t) ''Safety'' = js_includes t ''Safety''"
proof -
  have p: "CHR ''f'' \<notin> set msg_text_prefix" "CHR ''S'' \<notin> set msg_text_prefix"
    by (simp_all add: msg_text_prefix_def)
  show "js_includes (msg_text_prefix @ t) ''fetch failed'' = js_includes t ''fetch failed''"
    using p(1) by (simp add: includes_after_prefix)
  show "js_includes (msg_text_prefix @ t) ''Safety'' = js_includes t ''Safety''"
    using p(2) by (simp add: includes_after_prefix)
qed

lemma tryCatch_no_candidate:
  assumes "first_candidate response = None"
  shows "tryCatch (Inr response) = Inl (Error_new msg_no_candidate)"
  using assms by (simp add: tryCatch_def classifyResponse_def catchBlock_fixed)

lemma tryCatch_stopped:
  assumes "first_candidate response = Some c"
    and "finishReason c = Some r" and "r \<noteq> []" and "r \<noteq> ''STOP''"
  shows "tryCatch (Inr response) =
     Inl (if js_includes r ''fetch failed'' then Error_new msg_network
          else if js_includes r ''Safety'' then Error_new msg_safety
          else Error_new (msg_stopped_prefix @ r @ msg_stopped_suffix))"
  using assms
  by (simp add: tryCatch_def classifyResponse_def catchBlock_message includes_stopped
        interpolate_def)

lemma classifyResponse_normal:
  assumes "first_candidate response = Some c"
    and "finishReason c = None \<or> finishReason c = Some [] \<or> finishReason c = Some ''STOP''"
  shows "classifyResponse response =
     (case content_parts c of
        None \<Rightarrow> Inl (Error_new msg_no_parts)
      | Some ps \<Rightarrow>
          if ps = [] then Inl (Error_new msg_no_parts)
          else (case first_image ps of
                  Some url \<Rightarrow> Inr url
                | None \<Rightarrow>
                    (case find truthy_text ps of
                       Some textPart \<Rightarrow>
                         Inl (Error_new (msg_text_prefix @ interpolate (part_text textPart)))
                     | None \<Rightarrow> Inl (Error_new msg_no_image))))"
  using assms by (auto simp add: classifyResponse_def)

lemma tryCatch_no_parts:
  assumes "first_candidate response = Some c"
    and "finishReason c = None \<or> finishReason c = Some [] \<or> finishReason c = Some ''STOP''"
    and "content_parts c = None \<or> content_parts c = Some []"
  shows "tryCatch (Inr response) = Inl (Error_new msg_no_parts)"
  using assms(3)
  by (auto simp add: tryCatch_def classifyResponse_normal [OF assms(1,2)] catchBlock_fixed)

lemma tryCatch_image:
  assumes "first_candidate response = Some c"
    and "finishReason c = None \<or> finishReason c = Some [] \<or> finishReason c = Some ''STOP''"
    and "content_parts c = Some ps"
    and "find (\<lambda>p. inlineData p \<noteq> None) ps = Some part" and "inlineData part = Some d"
  shows "tryCatch (Inr response) =
     Inr (''data:'' @ interpolate (mimeType d) @ '';base64,'' @ interpolate (data d))"
proof -
  have "ps \<noteq> []" using assms(4) by auto
  then show ?thesis
    using assms(3,4,5)
    by (simp add: tryCatch_def classifyResponse_normal [OF assms(1,2)] first_image_find)
qed

lemma tryCatch_text:
  assumes "first_candidate response = Some c"
    and "finishReason c = None \<or> finishReason c = Some [] \<or> finishReason c = Some ''STOP''"
    and "content_parts c = Some ps"
    and "find (\<lambda>p. inlineData p \<noteq> None) ps = None"
    and "find (\<lambda>p. part_text p \<noteq> None \<and> part_text p \<noteq> Some []) ps = Some textPart"
    and "part_text textPart = Some t"
  shows "tryCatch (Inr response) =
     Inl (if js_includes t ''fetch failed'' then Error_new msg_network
          else if js_includes t ''Safety'' then Error_new msg_safety
          else Error_new (msg_text_prefix @ t))"
proof -
  have "ps \<noteq> []" using assms(5) by auto
  then show ?thesis
    using assms(3,4,5,6)
    by (simp add: tryCatch_def classifyResponse_normal [OF assms(1,2)] first_image_find
          truthy_text_eq catchBlock_message includes_text interpolate_def)
qed

lemma tryCatch_no_image:
  assumes "first_candidate response = Some c"
    and "finishReason c = None \<or> finishReason c = Some [] \<or> finishReason c = Some ''STOP''"
    and "content_parts c = Some ps" and "ps \<noteq> []"
    and "find (\<lambda>p. inlineData p \<noteq> None) ps = None"
    and "find (\<lambda>p. part_text p \<noteq> None \<and> part_text p \<noteq> Some []) ps = None"
  shows "tryCatch (Inr response) = Inl (Error_new msg_no_image)"
  using assms(3,4,5,6)
  by (simp add: tryCatch_def classifyResponse_normal [OF assms(1,2)] first_image_find
        truthy_text_eq catchBlock_fixed)

lemma restoreImage_responded:
  assumes "\<not> falsy (js_or (API_KEY env) (GEMINI_API_KEY env))"
    and "remote (request base64Image mime mode) = After ms (Inr response)"
  shows "restoreImage env remote base64Image mime mode = After ms (tryCatch (Inr response))"
  using assms by (auto simp add: restoreImage_def)


lemma ex_first_candidate:
  "first_candidate (response_of_parts ps)
     = Some \<lparr> finishReason = Some ''STOP'', content = Some \<lparr> parts = Some ps \<rparr> \<rparr>"
  by (simp add: first_candidate_def response_of_parts_def)

lemma ex_restoreImage_answering:
  "restoreImage ex_env (answering response) base64Image mime mode
     = After 1200 (tryCatch (Inr response))"
  by (simp add: restoreImage_def ex_key answering_def)

lemma tryCatch_single_text:
  assumes "t \<noteq> []"
  shows "tryCatch (Inr (response_of_parts [text_part t])) =
     Inl (if js_includes t ''fetch failed'' then Error_new msg_network
          else if js_includes t ''Safety'' then Error_new msg_safety
          else Error_new (msg_text_prefix @ t))"
  using assms
  by (simp add: tryCatch_def classifyResponse_def ex_first_candidate content_parts_def
        text_part_def truthy_text_def interpolate_def catchBlock_message includes_text)

text \<open>
  C3, as the specification states it, fails: a response with nothing but text does not
  always give the error that carries the text. When the text speaks of "Safety", the
  error thrown for it is caught by the \<open>catch\<close> block of the same function and
  replaced by the content-blocked error, which does not carry the text.
\<close>

theorem text_only_response_counterexample:
  "restoreImage ex_env (answering ex_safety_response) ''data:image/png;base64,AAAA''
       ''image/png'' Standard
     = After 1200 (Inl (Error_new msg_safety))
   \<and> ex_safety_response = response_of_parts [text_part ex_safety_text]
   \<and> Error_new msg_safety \<noteq> Error_new (msg_text_prefix @ ex_safety_text)"
proof -
  have "js_includes ex_safety_text ''Safety''" "\<not> js_includes ex_safety_text ''fetch failed''"
    by (simp_all add: ex_safety_text_def js_includes_def sublist_code)
  moreover have "ex_safety_text \<noteq> []"
    by (simp add: ex_safety_text_def)
  ultimately have "tryCatch (Inr ex_safety_response) = Inl (Error_new msg_safety)"
    by (simp add: ex_safety_response_def tryCatch_single_text)
  moreover have "msg_safety \<noteq> msg_text_prefix @ ex_safety_text"
    by (simp add: msg_safety_def msg_text_prefix_def)
  ultimately show ?thesis
    by (simp add: ex_restoreImage_answering ex_safety_response_def Error_new_def)
qed

text \<open>
  C3, amended. When the key is present and the remote call returns a response,
  \<open>restoreImage\<close> settles when the call does, and its outcome is decided in this order.
  No first candidate: the empty-response error. A finish reason that is present,
  non-empty and not "STOP": the stop-reason error naming the reason. No parts, or an
  empty list of parts: the no-parts error. A part with inline data: success, with the
  data URL made of the mime type and data of the first such part. Otherwise a part with
  non-empty text: the error carrying the text of the first such part. Otherwise the
  no-image error. The stop-reason error and the error carrying the text pass through the
  \<open>catch\<close> block of the function, which replaces them by the network error when the
  reason or the text contains "fetch failed", and else by the content-blocked error when
  it contains "Safety".
\<close>

theorem restoreImage_response:
  assumes "\<not> falsy (js_or (API_KEY env) (GEMINI_API_KEY env))"
    and "remote (request base64Image mime mode) = After ms (Inr response)"
  shows "\<exists>outcome.
     restoreImage env remote base64Image mime mode = After ms outcome
     \<and> (first_candidate response = None \<longrightarrow> outcome = Inl (Error_new msg_no_candidate))
     \<and> (\<forall>c. first_candidate response = Some c \<longrightarrow>
          (\<forall>r. finishReason c = Some r \<and> r \<noteq> [] \<and> r \<noteq> ''STOP'' \<longrightarrow>
             outcome =
               Inl (if js_includes r ''fetch failed'' then Error_new msg_network
                    else if js_includes r ''Safety'' then Error_new msg_safety
                    else Error_new (msg_stopped_prefix @ r @ msg_stopped_suffix)))
          \<and> (finishReason c = None \<or> finishReason c = Some [] \<or> finishReason c = Some ''STOP'' \<longrightarrow>
               (content_parts c = None \<or> content_parts c = Some [] \<longrightarrow>
                  outcome = Inl (Error_new msg_no_parts))
               \<and> (\<forall>ps. content_parts c = Some ps \<and> ps \<noteq> [] \<longrightarrow>
                    (\<forall>part d. find (\<lambda>p. inlineData p \<noteq> None) ps = Some part
                               \<and> inlineData part = Some d \<longrightarrow>
                       outcome =
                         Inr (''data:'' @ interpolate (mimeType d) @ '';base64,''
                                @ interpolate (data d)))
                    \<and> (find (\<lambda>p. inlineData p \<noteq> None) ps = None \<longrightarrow>
                         (\<forall>textPart t.
                            find (\<lambda>p. part_text p \<noteq> None \<and> part_text p \<noteq> Some []) ps
                              = Some textPart
                            \<and> part_text textPart = Some t \<longrightarrow>
                            outcome =
                              Inl (if js_includes t ''fetch failed'' then Error_new msg_network
                                   else if js_includes t ''Safety'' then Error_new msg_safety
                                   else Error_new (msg_text_prefix @ t)))
                         \<and> (find (\<lambda>p. part_text p \<noteq> None \<and> part_text p \<noteq> Some []) ps = None \<longrightarrow>
                              outcome = Inl (Error_new msg_no_image))))))"
proof (intro exI conjI allI impI)
  show "restoreImage env remote base64Image mime mode = After ms (tryCatch (Inr response))"
    using assms by (rule restoreImage_responded)
next
  assume "first_candidate response = None"
  then show "tryCatch (Inr response) = Inl (Error_new msg_no_candidate)"
    by (rule tryCatch_no_candidate)
next
  fix c r
  assume "first_candidate response = Some c"
    and "finishReason c = Some r \<and> r \<noteq> [] \<and> r \<noteq> ''STOP''"
  then show "tryCatch (Inr response) =
      Inl (if js_includes r ''fetch failed'' then Error_new msg_network
           else if js_includes r ''Safety'' then Error_new msg_safety
           else Error_new (msg_stopped_prefix @ r @ msg_stopped_suffix))"
    by (simp add: tryCatch_stopped)
next
  fix c
  assume "first_candidate response = Some c"
    and "finishReason c = None \<or> finishReason c = Some [] \<or> finishReason c = Some ''STOP''"
    and "content_parts c = None \<or> content_parts c = Some []"
  then show "tryCatch (Inr response) = Inl (Error_new msg_no_parts)"
    by (rule tryCatch_no_parts)
next
  fix c ps part d
  assume "first_candidate response = Some c"
    and "finishReason c = None \<or> finishReason c = Some [] \<or> finishReason c = Some ''STOP''"
    and "content_parts c = Some ps \<and> ps \<noteq> []"
    and "find (\<lambda>p. inlineData p \<noteq> None) ps = Some part \<and> inlineData part = Some d"
  then show "tryCatch (Inr response) =
      Inr (''data:'' @ interpolate (mimeType d) @ '';base64,'' @ interpolate (data d))"
    by (simp add: tryCatch_image)
next
  fix c ps textPart t
  assume "first_candidate response = Some c"
    and "finishReason c = None \<or> finishReason c = Some [] \<or> finishReason c = Some ''STOP''"
    and "content_parts c = Some ps \<and> ps \<noteq> []"
    and "find (\<lambda>p. inlineData p \<noteq> None) ps = None"
    and "find (\<lambda>p. part_text p \<noteq> None \<and> part_text p \<noteq> Some []) ps = Some textPart
           \<and> part_text textPart = Some t"
  then show "tryCatch (Inr response) =
      Inl (if js_includes t ''fetch failed'' then Error_new msg_network
           else if js_includes t ''Safety'' then Error_new msg_safety
           else Error_new (msg_text_prefix @ t))"
    by (simp add: tryCatch_text)
next
  fix c ps
  assume "first_candidate response = Some c"
    and "finishReason c = None \<or> finishReason c = Some [] \<or> finishReason c = Some ''STOP''"
    and "content_parts c = Some ps \<and> ps \<noteq> []"
    and "find (\<lambda>p. inlineData p \<noteq> None) ps = None"
    and "find (\<lambda>p. part_text p \<noteq> None \<and> part_text p \<noteq> Some []) ps = None"
  then show "tryCatch (Inr response) = Inl (Error_new msg_no_image)"
    by (simp add: tryCatch_no_image)
qed


theorem restoreImage_response_witness:
  "restoreImage ex_env (answering ex_no_candidates) ''AAAA'' ''image/png'' Standard
     = After 1200 (Inl (Error_new msg_no_candidate))
   \<and> restoreImage ex_env (answering ex_stopped_response) ''AAAA'' ''image/png'' Standard
     = After 1200 (Inl (Error_new (msg_stopped_prefix @ ''SAFETY'' @ msg_stopped_suffix)))
   \<and> restoreImage ex_env (answering ex_no_parts_response) ''AAAA'' ''image/png'' Standard
     = After 1200 (Inl (Error_new msg_no_parts))
   \<and> restoreImage ex_env (answering ex_image_response) ''AAAA'' ''image/png'' Standard
     = After 1200 (Inr ''data:image/png;base64,QUJD'')
   \<and> restoreImage ex_env (answering ex_text_response) ''AAAA'' ''image/png'' Standard
     = After 1200 (Inl (Error_new (msg_text_prefix @ ''I can only restore photographs.'')))
   \<and> restoreImage ex_env (answering ex_blank_response) ''AAAA'' ''image/png'' Standard
     = After 1200 (Inl (Error_new msg_no_image))"
proof -
  have key: "\<not> falsy (js_or (API_KEY ex_env) (GEMINI_API_KEY ex_env))"
    by (rule ex_key)
  have call: "answering response (request ''AAAA'' ''image/png'' Standard)
      = After 1200 (Inr response)" for response
    by (simp add: answering_def)
  have "restoreImage ex_env (answering ex_no_candidates) ''AAAA'' ''image/png'' Standard
      = After 1200 (Inl (Error_new msg_no_candidate))"
    using restoreImage_response [of ex_env "answering ex_no_candidates" "''AAAA''" "''image/png''"
        Standard 1200 ex_no_candidates] key call
    by (auto simp add: first_candidate_def ex_no_candidates_def)
  moreover have "restoreImage ex_env (answering ex_stopped_response) ''AAAA'' ''image/png''
        Standard
      = After 1200 (Inl (Error_new (msg_stopped_prefix @ ''SAFETY'' @ msg_stopped_suffix)))"
    using restoreImage_response [of ex_env "answering ex_stopped_response" "''AAAA''" "''image/png''"
        Standard 1200 ex_stopped_response] key call
    by (auto simp add: first_candidate_def ex_stopped_response_def js_includes_def sublist_code)
  moreover have "restoreImage ex_env (answering ex_no_parts_response) ''AAAA'' ''image/png''
        Standard
      = After 1200 (Inl (Error_new msg_no_parts))"
    using restoreImage_response [of ex_env "answering ex_no_parts_response" "''AAAA''" "''image/png''"
        Standard 1200 ex_no_parts_response] key call
    by (auto simp add: ex_first_candidate ex_no_parts_response_def content_parts_def)
  moreover have "restoreImage ex_env (answering ex_image_response) ''AAAA'' ''image/png''
        Standard
      = After 1200 (Inr ''data:image/png;base64,QUJD'')"
    using restoreImage_response [of ex_env "answering ex_image_response" "''AAAA''" "''image/png''"
        Standard 1200 ex_image_response] key call
    by (auto simp add: ex_first_candidate ex_image_response_def content_parts_def
          text_part_def image_part_def interpolate_def)
  moreover have "restoreImage ex_env (answering ex_text_response) ''AAAA'' ''image/png''
        Standard
      = After 1200 (Inl (Error_new (msg_text_prefix @ ''I can only restore photographs.'')))"
    using restoreImage_response [of ex_env "answering ex_text_response" "''AAAA''" "''image/png''"
        Standard 1200 ex_text_response] key call
    by (auto simp add: ex_first_candidate ex_text_response_def content_parts_def
          text_part_def js_includes_def sublist_code)
  moreover have "restoreImage ex_env (answering ex_blank_response) ''AAAA'' ''image/png''
        Standard
      = After 1200 (Inl (Error_new msg_no_image))"
    using restoreImage_response [of ex_env "answering ex_blank_response" "''AAAA''" "''image/png''"
        Standard 1200 ex_blank_response] key call
    by (auto simp add: ex_first_candidate ex_blank_response_def content_parts_def
          text_part_def)
  ultimately show ?thesis by simp
qed

text \<open>
  C9. There are responses with nothing but a text part whose text contains "Safety" for
  which \<open>restoreImage\<close> fails with the content-blocked error and not with the error
  that carries the text: for every such text without "fetch failed" in it, the
  classification of the response throws the error carrying the text, and the \<open>catch\<close>
  block of the same \<open>try\<close>, written for the failures of the remote call, catches that
  error too and replaces it.
\<close>

theorem text_error_reclassified:
  assumes "\<not> falsy (js_or (API_KEY env) (GEMINI_API_KEY env))"
    and "remote (request base64Image mime mode)
           = After ms (Inr (response_of_parts [text_part t]))"
    and "js_includes t ''Safety''" and "\<not> js_includes t ''fetch failed''"
  shows "classifyResponse (response_of_parts [text_part t])
       = Inl (Error_new (msg_text_prefix @ t))
     \<and> catchBlock (Error_new (msg_text_prefix @ t)) = Error_new msg_safety
     \<and> restoreImage env remote base64Image mime mode = After ms (Inl (Error_new msg_safety))
     \<and> Error_new msg_safety \<noteq> Error_new (msg_text_prefix @ t)"
proof -
  have t: "t \<noteq> []"
    using assms(3) by (auto simp add: js_includes_def)
  then have "classifyResponse (response_of_parts [text_part t])
      = Inl (Error_new (msg_text_prefix @ t))"
    by (simp add: classifyResponse_def ex_first_candidate content_parts_def text_part_def
          truthy_text_def interpolate_def)
  moreover have "catchBlock (Error_new (msg_text_prefix @ t)) = Error_new msg_safety"
    using assms(3,4) by (simp add: catchBlock_message includes_text)
  moreover have "restoreImage env remote base64Image mime mode
      = After ms (Inl (Error_new msg_safety))"
    using assms t by (simp add: restoreImage_responded tryCatch_single_text)
  moreover have "msg_safety \<noteq> msg_text_prefix @ t"
    by (simp add: msg_safety_def msg_text_prefix_def)
  ultimately show ?thesis
    by (simp add: Error_new_def)
qed

theorem text_error_reclassified_witness:
  "js_includes ''Blocked (Safety).'' ''Safety''
   \<and> ex_safety_note_response = response_of_parts [text_part ''Blocked (Safety).'']
   \<and> classifyResponse ex_safety_note_response
       = Inl (Error_new (msg_text_prefix @ ''Blocked (Safety).''))
   \<and> restoreImage ex_env (answering ex_safety_note_response) ''AAAA'' ''image/png'' Ultra
       = After 1200 (Inl (Error_new msg_safety))
   \<and> Error_new msg_safety \<noteq> Error_new (msg_text_prefix @ ''Blocked (Safety).'')"
proof -
  have key: "\<not> falsy (js_or (API_KEY ex_env) (GEMINI_API_KEY ex_env))"
    by (rule ex_key)
  have call: "answering ex_safety_note_response (request ''AAAA'' ''image/png'' Ultra)
      = After 1200 (Inr (response_of_parts [text_part ''Blocked (Safety).'']))"
    by (simp add: answering_def ex_safety_note_response_def)
  have safety: "js_includes ''Blocked (Safety).'' ''Safety''"
    and fetch: "\<not> js_includes ''Blocked (Safety).'' ''fetch failed''"
    by (simp_all add: js_includes_def sublist_code)
  show ?thesis
    using text_error_reclassified [of ex_env "answering ex_safety_note_response" "''AAAA''"
        "''image/png''" Ultra 1200 "''Blocked (Safety).''"] key call safety fetch
    by (simp add: ex_safety_note_response_def)
qed


section \<open>Identifiers\<close>

lemma ids_onDrop:
  "map item_id (photos (onDrop acceptedFiles st))
     = map item_id (photos st) @ map (\<lambda>d. drop 7 (random36 d)) acceptedFiles"
  by (simp add: onDrop_def newPhoto_def comp_def)

text \<open>
  C8, as the specification states it, fails: nothing makes the ids differ. Two files
  dropped together, with the different draws 0.5 and 0.25, both get the empty string as
  their id, because the base-36 text of either draw has fewer than eight characters.
\<close>

theorem duplicate_id_counterexample:
  "length (photos (onDrop [ex_drop_half, ex_drop_quarter] ex_empty)) = 2
   \<and> item_id (photos (onDrop [ex_drop_half, ex_drop_quarter] ex_empty) ! 0)
       = item_id (photos (onDrop [ex_drop_half, ex_drop_quarter] ex_empty) ! 1)
   \<and> random36 ex_drop_half \<noteq> random36 ex_drop_quarter
   \<and> objectURL ex_drop_half \<noteq> objectURL ex_drop_quarter"
  by (simp add: onDrop_def ex_empty_def newPhoto_def ex_drop_half_def ex_drop_quarter_def)

text \<open>
  C8, amended. The id of a new item is the base-36 text of its random draw from the
  eighth character on, and adding items leaves the items already there, ids included,
  as they are. So the ids of the collection after an add are pairwise different exactly
  when they were before, the texts of the new draws differ pairwise from the eighth
  character on, and none of them is an id already in the collection. No record is kept
  of ids used before: after a removal the collection holds the ids it held, less the
  removed one, which a later draw may give again.
\<close>

theorem onDrop_ids:
  "take (length (photos st)) (photos (onDrop acceptedFiles st)) = photos st
   \<and> map item_id (drop (length (photos st)) (photos (onDrop acceptedFiles st)))
       = map (\<lambda>d. drop 7 (random36 d)) acceptedFiles
   \<and> distinct (map item_id (photos (onDrop acceptedFiles st)))
       = (distinct (map item_id (photos st))
          \<and> distinct (map (\<lambda>d. drop 7 (random36 d)) acceptedFiles)
          \<and> set (map item_id (photos st))
               \<inter> set (map (\<lambda>d. drop 7 (random36 d)) acceptedFiles) = {})
   \<and> set (map item_id (photos (removePhoto i st))) = set (map item_id (photos st)) - {i}"
proof -
  have "set (map item_id (photos (removePhoto i st))) = set (map item_id (photos st)) - {i}"
    by (auto simp add: removePhoto_def emit_def)
  moreover have "map item_id (drop (length (photos st)) (photos (onDrop acceptedFiles st)))
      = map (\<lambda>d. drop 7 (random36 d)) acceptedFiles"
    by (simp add: onDrop_def newPhoto_def comp_def)
  moreover have "take (length (photos st)) (photos (onDrop acceptedFiles st)) = photos st"
    by (simp add: onDrop_def)
  ultimately show ?thesis
    by (auto simp add: ids_onDrop)
qed


section \<open>Processing all photos\<close>

lemma mode_processPhoto: "restorationMode (processPhoto a photo st) = restorationMode st"
  by (simp add: processPhoto_def settlePhoto_def startPhoto_def markProcessing_def
        markCompleted_def markError_def catchFailure_def emit_def onDrop_def Let_def
      split: sum.split)

lemma flag_processPhoto: "isProcessingAll (processPhoto a photo st) = isProcessingAll st"
  by (simp add: processPhoto_def settlePhoto_def startPhoto_def markProcessing_def
        markCompleted_def markError_def catchFailure_def emit_def onDrop_def Let_def
      split: sum.split)

lemma length_processPhoto: "length (photos st) \<le> length (photos (processPhoto a photo st))"
  by (simp add: processPhoto_def length_photos_processed)

lemma nth_processPhoto_other:
  assumes "n < length (photos st)" and "item_id (photos st ! n) \<noteq> item_id photo"
  shows "photos (processPhoto a photo st) ! n = photos st ! n"
  using assms by (simp add: processPhoto_def nth_photos_processed)

lemma id_processPhoto:
  assumes "n < length (photos st)"
  shows "item_id (photos (processPhoto a photo st) ! n) = item_id (photos st ! n)"
  using assms by (simp add: processPhoto_def nth_photos_processed split: sum.split)

lemma status_processPhoto:
  assumes "n < length (photos st)"
    and "status (photos st ! n) = Completed \<or> status (photos st ! n) = Error
         \<or> (eligible photo \<and> item_id (photos st ! n) = item_id photo)"
  shows "status (photos (processPhoto a photo st) ! n) = Completed
     \<or> status (photos (processPhoto a photo st) ! n) = Error"
  using assms
  by (auto simp add: processPhoto_def nth_photos_processed eligible_def split: sum.split)

lemma trace_processPhoto:
  assumes "eligible photo"
  shows "trace (processPhoto a photo st) = trace st @ call_events a (restorationMode st) photo"
  using assms
  by (simp add: eligible_def processPhoto_startable trace_processed call_events_def)

lemma trace_processLoop:
  assumes "list_all eligible ps"
  shows "trace (processLoop attempts k ps st) =
     trace st @ concat (map (\<lambda>j. call_events (attempts (k + j)) (restorationMode st) (ps ! j))
                          [0..<length ps])"
  using assms
proof (induction ps arbitrary: k st)
  case Nil
  then show ?case by simp
next
  case (Cons photo rest)
  then show ?case
    by (simp add: trace_processPhoto mode_processPhoto map_upt_Suc del: upt_Suc)
qed

lemma status_processLoop:
  assumes "n < length (photos st)" and "list_all eligible ps"
    and "status (photos st ! n) = Completed \<or> status (photos st ! n) = Error
         \<or> item_id (photos st ! n) \<in> item_id ` set ps"
  shows "status (photos (processLoop attempts k ps st) ! n) = Completed
     \<or> status (photos (processLoop attempts k ps st) ! n) = Error"
  using assms
proof (induction ps arbitrary: k st)
  case Nil
  then show ?case by simp
next
  case (Cons photo rest)
  let ?st1 = "processPhoto (attempts k) photo st"
  have n: "n < length (photos ?st1)"
    using Cons.prems(1) length_processPhoto [of st "attempts k" photo] by simp
  have "status (photos ?st1 ! n) = Completed \<or> status (photos ?st1 ! n) = Error
       \<or> item_id (photos ?st1 ! n) \<in> item_id ` set rest"
  proof (cases "item_id (photos st ! n) = item_id photo")
    case True
    then show ?thesis
      using status_processPhoto [of n st photo "attempts k"] Cons.prems by auto
  next
    case False
    then show ?thesis
      using Cons.prems by (auto simp add: nth_processPhoto_other)
  qed
  with Cons.IH [OF n] Cons.prems(2) show ?case by simp
qed

lemma nth_processLoop_other:
  assumes "n < length (photos st)" and "item_id (photos st ! n) \<notin> item_id ` set ps"
  shows "photos (processLoop attempts k ps st) ! n = photos st ! n"
  using assms
proof (induction ps arbitrary: k st)
  case Nil
  then show ?case by simp
next
  case (Cons photo rest)
  let ?st1 = "processPhoto (attempts k) photo st"
  have n: "n < length (photos ?st1)"
    using Cons.prems(1) length_processPhoto [of st "attempts k" photo] by simp
  have same: "photos ?st1 ! n = photos st ! n"
    using Cons.prems by (simp add: nth_processPhoto_other)
  with Cons.IH [OF n] Cons.prems(2) show ?case by simp
qed

lemma flag_processLoop: "isProcessingAll (processLoop attempts k ps st) = isProcessingAll st"
  by (induction ps arbitrary: k st) (simp_all add: flag_processPhoto)

lemma length_processLoop:
  "length (photos st) \<le> length (photos (processLoop attempts k ps st))"
proof (induction ps arbitrary: k st)
  case Nil
  then show ?case by simp
next
  case (Cons photo rest)
  have "length (photos st) \<le> length (photos (processPhoto (attempts k) photo st))"
    by (rule length_processPhoto)
  also have "\<dots> \<le> length (photos (processLoop attempts (Suc k) rest
      (processPhoto (attempts k) photo st)))"
    by (rule Cons.IH)
  finally show ?case by simp
qed

lemma nth_photos_arrived:
  assumes "n < length (arrivals a)"
    and "drop 7 (random36 (arrivals a ! n)) \<noteq> item_id photo"
  shows "photos (settlePhoto a photo mode (startPhoto photo st)) ! (length (photos st) + n)
     = newPhoto (arrivals a ! n)"
proof -
  have "item_id (newPhoto (arrivals a ! n)) \<noteq> item_id photo"
    using assms(2) by (simp add: newPhoto_def)
  then show ?thesis
    using assms(1)
    by (simp add: settlePhoto_def startPhoto_def markProcessing_def markCompleted_def
          markError_def catchFailure_def emit_def onDrop_def nth_append Let_def
        split: sum.split)
qed

lemma arrived_processLoop:
  assumes "list_all eligible ps"
    and "\<forall>j<length ps. \<forall>d\<in>set (arrivals (attempts (k + j))).
           drop 7 (random36 d) \<notin> item_id ` set ps"
  shows "drop (length (photos st)) (photos (processLoop attempts k ps st))
     = map newPhoto (concat (map (\<lambda>j. arrivals (attempts (k + j))) [0..<length ps]))"
  using assms
proof (induction ps arbitrary: k st)
  case Nil
  then show ?case by simp
next
  case (Cons photo rest)
  let ?a = "attempts k"
  let ?st1 = "processPhoto ?a photo st"
  let ?final = "processLoop attempts (Suc k) rest ?st1"
  let ?L = "length (photos st)"
  have el: "eligible photo" and els: "list_all eligible rest"
    using Cons.prems(1) by simp_all
  have st1: "?st1 = settlePhoto ?a photo (restorationMode st) (startPhoto photo st)"
    using el by (simp add: eligible_def processPhoto_startable)
  have len1: "length (photos ?st1) = ?L + length (arrivals ?a)"
    by (simp add: st1 length_photos_processed)
  have fresh0: "\<forall>d\<in>set (arrivals ?a). drop 7 (random36 d) \<notin> item_id ` set (photo # rest)"
    using Cons.prems(2) by force
  have fresh: "\<forall>j<length rest. \<forall>d\<in>set (arrivals (attempts (Suc k + j))).
      drop 7 (random36 d) \<notin> item_id ` set rest"
  proof (intro allI impI ballI)
    fix j d
    assume "j < length rest" and "d \<in> set (arrivals (attempts (Suc k + j)))"
    then have "drop 7 (random36 d) \<notin> item_id ` set (photo # rest)"
      using Cons.prems(2) [rule_format, of "Suc j" d] by simp
    then show "drop 7 (random36 d) \<notin> item_id ` set rest" by simp
  qed
  have later: "drop (length (photos ?st1)) (photos ?final)
      = map newPhoto (concat (map (\<lambda>j. arrivals (attempts (Suc k + j))) [0..<length rest]))"
    using els fresh by (rule Cons.IH)
  have now: "take (length (arrivals ?a)) (drop ?L (photos ?final)) = map newPhoto (arrivals ?a)"
  proof (rule nth_equalityI)
    have "length (photos ?st1) \<le> length (photos ?final)"
      by (rule length_processLoop)
    then show "length (take (length (arrivals ?a)) (drop ?L (photos ?final)))
        = length (map newPhoto (arrivals ?a))"
      using len1 by simp
  next
    fix n
    assume "n < length (take (length (arrivals ?a)) (drop ?L (photos ?final)))"
    then have n: "n < length (arrivals ?a)" by simp
    then have d: "arrivals ?a ! n \<in> set (arrivals ?a)" by simp
    have new: "photos ?st1 ! (?L + n) = newPhoto (arrivals ?a ! n)"
      using n d fresh0 by (simp add: st1 nth_photos_arrived)
    have "item_id (photos ?st1 ! (?L + n)) \<notin> item_id ` set rest"
      using d fresh0 by (simp add: new newPhoto_def)
    moreover have "?L + n < length (photos ?st1)"
      using n len1 by simp
    ultimately have "photos ?final ! (?L + n) = photos ?st1 ! (?L + n)"
      by (simp add: nth_processLoop_other)
    moreover have "?L + n < length (photos ?final)"
      using \<open>?L + n < length (photos ?st1)\<close> length_processLoop [of ?st1 attempts "Suc k" rest]
      by simp
    ultimately show "take (length (arrivals ?a)) (drop ?L (photos ?final)) ! n
        = map newPhoto (arrivals ?a) ! n"
      using n new by simp
  qed
  have "drop ?L (photos ?final)
      = take (length (arrivals ?a)) (drop ?L (photos ?final))
        @ drop (length (arrivals ?a)) (drop ?L (photos ?final))"
    by (simp only: append_take_drop_id)
  also have "drop (length (arrivals ?a)) (drop ?L (photos ?final))
      = drop (length (photos ?st1)) (photos ?final)"
    by (simp add: len1 add.commute)
  finally have "drop ?L (photos ?final)
      = map newPhoto (arrivals ?a)
        @ map newPhoto (concat (map (\<lambda>j. arrivals (attempts (Suc k + j))) [0..<length rest]))"
    by (simp only: now later)
  then show ?case
    by (simp add: map_upt_Suc del: upt_Suc)
qed


lemma photos_processAll:
  "photos (processAll attempts st)
     = photos (processLoop attempts 0 (filter eligible (photos st)) (st\<lparr>isProcessingAll := True\<rparr>))"
  by (simp add: processAll_def Let_def)

lemma eligible_snapshot: "list_all eligible (filter eligible ps)"
  by (simp add: list_all_iff)

text \<open>
  C4. \<open>processAll\<close> takes as its snapshot the items that are pending or in error when
  it is called, in the order of the collection, and calls \<open>processPhoto\<close> on them one
  after the other: what it adds to the trace is the effects of the first call from its
  start to its end, then those of the second, and so on, one call for each item of the
  snapshot, whether the calls before it ended in success or in failure, and none for an
  item added meanwhile. Afterwards every item that was pending or in error is completed
  or in error; an item whose id is not the id of an item of the snapshot is as it was;
  the items dropped during the run follow the old ones as they were created (pending),
  provided their ids are not ids of the snapshot; and the batch flag is down again.
\<close>

theorem processAll_snapshot:
  "isProcessingAll (processAll attempts st) = False
   \<and> trace (processAll attempts st) =
       trace st @ concat (map (\<lambda>k. call_events (attempts k) (restorationMode st)
                                      (filter eligible (photos st) ! k))
                            [0..<length (filter eligible (photos st))])
   \<and> (\<forall>n<length (photos st). eligible (photos st ! n) \<longrightarrow>
         status (photos (processAll attempts st) ! n) = Completed
         \<or> status (photos (processAll attempts st) ! n) = Error)
   \<and> (\<forall>n<length (photos st).
         item_id (photos st ! n) \<notin> item_id ` set (filter eligible (photos st)) \<longrightarrow>
         photos (processAll attempts st) ! n = photos st ! n)
   \<and> ((\<forall>k<length (filter eligible (photos st)). \<forall>d\<in>set (arrivals (attempts k)).
          drop 7 (random36 d) \<notin> item_id ` set (filter eligible (photos st))) \<longrightarrow>
        drop (length (photos st)) (photos (processAll attempts st))
          = map newPhoto (concat (map (\<lambda>k. arrivals (attempts k))
                                    [0..<length (filter eligible (photos st))])))"
proof (intro conjI allI impI)
  let ?st0 = "st\<lparr>isProcessingAll := True\<rparr>"
  let ?ps = "filter eligible (photos st)"
  show "isProcessingAll (processAll attempts st) = False"
    by (simp add: processAll_def Let_def)
  show "trace (processAll attempts st) =
      trace st @ concat (map (\<lambda>k. call_events (attempts k) (restorationMode st) (?ps ! k))
                           [0..<length ?ps])"
    using trace_processLoop [OF eligible_snapshot, of attempts 0 "photos st" ?st0]
    by (simp add: processAll_def Let_def)
  show "status (photos (processAll attempts st) ! n) = Completed
      \<or> status (photos (processAll attempts st) ! n) = Error"
    if "n < length (photos st)" and "eligible (photos st ! n)" for n
  proof -
    have "item_id (photos ?st0 ! n) \<in> item_id ` set ?ps"
      using that by (auto simp add: in_set_conv_nth)
    then show ?thesis
      using that(1) status_processLoop [OF _ eligible_snapshot, of n ?st0 "photos st" attempts 0]
      by (simp add: photos_processAll)
  qed
  show "photos (processAll attempts st) ! n = photos st ! n"
    if "n < length (photos st)" and "item_id (photos st ! n) \<notin> item_id ` set ?ps" for n
    using that nth_processLoop_other [of n ?st0 ?ps attempts 0]
    by (simp add: photos_processAll)
  show "drop (length (photos st)) (photos (processAll attempts st))
      = map newPhoto (concat (map (\<lambda>k. arrivals (attempts k)) [0..<length ?ps]))"
    if "\<forall>k<length ?ps. \<forall>d\<in>set (arrivals (attempts k)).
          drop 7 (random36 d) \<notin> item_id ` set ?ps"
    using that arrived_processLoop [OF eligible_snapshot, of "photos st" attempts 0 ?st0]
    by (simp add: photos_processAll)
qed

lemma ex_snapshot: "filter eligible (photos ex_app) = [ex_photo_a, ex_photo_b]"
  by (simp add: ex_app_photos eligible_def ex_status)

lemma ex_attempts_simps:
  "ex_attempts 0 = ex_attempt_quota \<lparr> arrivals := [ex_drop_half] \<rparr>"
  "ex_attempts (Suc 0) = ex_attempt_ok"
  by (simp_all add: ex_attempts_def)

lemma tryBody_arrivals:
  "tryBody (a\<lparr>arrivals := ds\<rparr>) mode photo = tryBody a mode photo"
  "tryBody_calls (a\<lparr>arrivals := ds\<rparr>) mode photo = tryBody_calls a mode photo"
  by (simp_all add: tryBody_def tryBody_calls_def split: option.split)

lemma ex_calls:
  "tryBody_calls ex_attempt_quota mode photo
     = [request ''data:image/png;base64,AAAA'' (file_type (item_file photo)) mode]"
  "tryBody_calls ex_attempt_ok mode photo
     = [request ''data:image/png;base64,AAAA'' (file_type (item_file photo)) mode]"
  by (simp_all add: tryBody_calls_def restoreImage_calls_def ex_attempt_quota_def
        ex_attempt_ok_def ex_key)

lemma ex_file_types:
  "file_type (item_file ex_photo_a) = ''image/png''"
  "file_type (item_file ex_photo_b) = ''image/jpeg''"
  by (simp_all add: ex_photo_a_def ex_photo_b_def newPhoto_def ex_drop_a_def ex_drop_b_def)

lemma ex_mode: "restorationMode ex_app = Standard"
  by (simp add: ex_app_def onDrop_def ex_empty_def)

theorem processAll_snapshot_witness:
  "(status (photos (processAll ex_attempts ex_app) ! 0) = Completed
     \<or> status (photos (processAll ex_attempts ex_app) ! 0) = Error)
   \<and> (status (photos (processAll ex_attempts ex_app) ! 1) = Completed
     \<or> status (photos (processAll ex_attempts ex_app) ! 1) = Error)
   \<and> drop 2 (photos (processAll ex_attempts ex_app)) = [newPhoto ex_drop_half]
   \<and> status (newPhoto ex_drop_half) = Pending
   \<and> trace (processAll ex_attempts ex_app) =
       [Started ''82mvyr'',
        Requested (request ''data:image/png;base64,AAAA'' ''image/png'' Standard),
        Finished ''82mvyr'' Error,
        Started ''lq07uf'',
        Requested (request ''data:image/png;base64,AAAA'' ''image/jpeg'' Standard),
        Finished ''lq07uf'' Completed]"
proof -
  have two: "[0..<2] = [0, Suc 0]"
    by (simp add: upt_rec)
  have "drop 7 (random36 d) = []" if "d \<in> set (arrivals (ex_attempts k))" for d k
    using that by (simp add: ex_attempts_def ex_arrivals ex_drop_half_def split: if_splits)
  then have fresh: "\<forall>k<length (filter eligible (photos ex_app)).
      \<forall>d\<in>set (arrivals (ex_attempts k)).
        drop 7 (random36 d) \<notin> item_id ` set (filter eligible (photos ex_app))"
    by (auto simp add: ex_snapshot ex_ids)
  have events: "call_events (ex_attempt_quota\<lparr>arrivals := [ex_drop_half]\<rparr>) Standard ex_photo_a =
        [Started ''82mvyr'',
         Requested (request ''data:image/png;base64,AAAA'' ''image/png'' Standard),
         Finished ''82mvyr'' Error]"
      "call_events ex_attempt_ok Standard ex_photo_b =
        [Started ''lq07uf'',
         Requested (request ''data:image/png;base64,AAAA'' ''image/jpeg'' Standard),
         Finished ''lq07uf'' Completed]"
    by (simp_all add: call_events_def tryBody_arrivals ex_calls
          ex_tryBody_quota ex_tryBody_ok ex_ids ex_file_types)
  have "trace ex_app = []"
    by (simp add: ex_app_def onDrop_def ex_empty_def)
  moreover have "status (newPhoto ex_drop_half) = Pending"
    by (simp add: newPhoto_def)
  ultimately show ?thesis
    using processAll_snapshot [of ex_attempts ex_app] fresh
    by (simp add: ex_snapshot two ex_app_photos eligible_def ex_status ex_mode events
          ex_attempts_simps ex_arrivals numeral_2_eq_2)
qed


section \<open>The guard of \<open>processPhoto\<close>\<close>









end
